theory Spec2Isabelle
  imports Main
begin

section \<open>JavaScript values shared by the server and the client\<close>

text \<open>
  A thrown value: an \<open>Error\<close> object, of which the program only ever reads
  \<open>message\<close> (absent when something other than an \<open>Error\<close> was thrown).
\<close>

datatype js_error = JsError (message: "string option")

text \<open>
  A JavaScript value that is a string, \<open>null\<close> or \<open>undefined\<close>, and what
  string concatenation and template literals turn it into. Strings are kept as their
  UTF-8 bytes.
\<close>

datatype js_str = Str string | Null | Undefined

fun js_to_string :: "js_str \<Rightarrow> string" where
  "js_to_string (Str s) = s"
| "js_to_string Null = ''null''"
| "js_to_string Undefined = ''undefined''"

text \<open>An optional string field read into a template literal: absent is \<open>undefined\<close>.\<close>

definition opt_to_string :: "string option \<Rightarrow> string" where
  "opt_to_string v = (case v of None \<Rightarrow> ''undefined'' | Some s \<Rightarrow> s)"

text \<open>\<open>a || b\<close> on optional strings: \<open>undefined\<close> and the empty string are falsy.\<close>

definition truthy :: "string option \<Rightarrow> bool" where
  "truthy v = (case v of None \<Rightarrow> False | Some s \<Rightarrow> s \<noteq> [])"

definition js_or :: "string option \<Rightarrow> string option \<Rightarrow> string option" where
  "js_or a b = (if truthy a then a else b)"

section \<open>The HTTP server\<close>

subsection \<open>Data\<close>

text \<open>The OAuth tokens of one user, as the Google client library hands them out.\<close>

record oauth_tokens =
  access_token :: "string option"
  refresh_token :: "string option"

text \<open>
  An \<open>OAuth2\<close> client object of the library: the three constructor arguments and the
  credentials that \<open>setCredentials\<close> stores. A new client holds the empty
  credentials object.
\<close>

record oauth2_client =
  clientId :: "string option"
  clientSecret :: "string option"
  redirectUri :: string
  credentials :: "oauth_tokens option"

definition empty_credentials :: oauth_tokens where
  "empty_credentials = \<lparr>access_token = None, refresh_token = None\<rparr>"

definition new_OAuth2 :: "string option \<Rightarrow> string option \<Rightarrow> string \<Rightarrow> oauth2_client" where
  "new_OAuth2 cid secret redirect =
     \<lparr>clientId = cid, clientSecret = secret, redirectUri = redirect,
      credentials = Some empty_credentials\<rparr>"

definition setCredentials :: "oauth2_client \<Rightarrow> oauth_tokens option \<Rightarrow> oauth2_client" where
  "setCredentials client toks = client\<lparr>credentials := toks\<rparr>"

text \<open>\<open>process.env\<close>, as far as the server reads it.\<close>

record process_env =
  GOOGLE_CLIENT_ID :: "string option"
  GOOGLE_CLIENT_SECRET :: "string option"
  APP_URL :: "string option"

text \<open>The part of a Google Docs document that the server reads.\<close>

record text_run =
  textRun_content :: js_str

record paragraph_element =
  textRun :: "text_run option"

record doc_paragraph =
  elements :: "paragraph_element list option"

record structural_element =
  element_paragraph :: "doc_paragraph option"

record document =
  body_content :: "structural_element list option"

text \<open>
  The Google services behind the library calls. They are outside the repository, so
  they are parameters of the model: each takes the client object it is called on.
\<close>

record auth_url_opts =
  access_type :: string
  scope :: "string list"

record google_api =
  generateAuthUrl :: "oauth2_client \<Rightarrow> auth_url_opts \<Rightarrow> string"
  getToken :: "oauth2_client \<Rightarrow> string option \<Rightarrow> js_error + oauth_tokens"
  documents_get :: "oauth2_client \<Rightarrow> string option \<Rightarrow> js_error + document"
  JSON_stringify :: "oauth_tokens \<Rightarrow> string"

text \<open>Requests and responses.\<close>

record doc_request_body =
  docId :: "string option"
  tokens :: "oauth_tokens option"
  body_clientId :: "string option"
  body_clientSecret :: "string option"

datatype response_body =
    Json_url string
  | Json_content string
  | Json_error string
  | Send string

record response =
  status :: nat
  body :: response_body

subsection \<open>Text extraction (both server variants)\<close>

text \<open>
  The two nested \<open>forEach\<close> loops of \<open>/api/google-doc/content\<close>, with \<open>content\<close>
  as the accumulator. \<open>content += el.textRun.content\<close> converts its operand to a string.
\<close>

definition append_element :: "string \<Rightarrow> paragraph_element \<Rightarrow> string" where
  "append_element content el =
     (case textRun el of
        Some tr \<Rightarrow> content @ js_to_string (textRun_content tr)
      | None \<Rightarrow> content)"

definition append_structural :: "string \<Rightarrow> structural_element \<Rightarrow> string" where
  "append_structural content element =
     (case element_paragraph element of
        Some p \<Rightarrow>
          (case elements p of
             Some els \<Rightarrow> foldl append_element content els
           | None \<Rightarrow> content)
      | None \<Rightarrow> content)"

definition extract_text :: "document \<Rightarrow> string" where
  "extract_text doc =
     (case body_content doc of
        Some els \<Rightarrow> foldl append_structural [] els
      | None \<Rightarrow> [])"

subsection \<open>Pieces common to both server variants\<close>

definition auth_url_options :: auth_url_opts where
  "auth_url_options =
     \<lparr>access_type = ''offline'',
      scope = [''https://www.googleapis.com/auth/documents.readonly'']\<rparr>"

text \<open>The redirect URI \<open>`${process.env.APP_URL}/auth/callback`\<close>.\<close>

definition callback_uri :: "process_env \<Rightarrow> string" where
  "callback_uri env = opt_to_string (APP_URL env) @ ''/auth/callback''"

fun join_lines :: "string list \<Rightarrow> string" where
  "join_lines [] = []"
| "join_lines [l] = l"
| "join_lines (l # ls) = l @ CHR 0x0A # join_lines ls"

text \<open>
  The page that \<open>/auth/callback\<close> sends after a successful exchange; its argument is
  \<open>JSON.stringify(tokens)\<close>.
\<close>

definition post_message_line :: "string \<Rightarrow> string" where
  "post_message_line tokens_json =
     ''                window.opener.postMessage({ type: 'GOOGLE_AUTH_SUCCESS', tokens: ''
       @ tokens_json @ '' }, '*');''"

definition success_page :: "string \<Rightarrow> string" where
  "success_page tokens_json = join_lines
     [[],
      ''        <html>'',
      ''          <body>'',
      ''            <script>'',
      ''              if (window.opener) {'',
      post_message_line tokens_json,
      ''                window.close();'',
      ''              } else {'',
      ''                window.location.href = '/';'',
      ''              }'',
      ''            </script>'',
      ''            <p>Authentication successful. This window should close automatically.</p>'',
      ''          </body>'',
      ''        </html>'',
      ''      '']"

text \<open>The \<open>try\<close>/\<open>catch\<close> of \<open>/auth/callback\<close>, given the outcome of \<open>getToken\<close>.\<close>

definition callback_response :: "google_api \<Rightarrow> js_error + oauth_tokens \<Rightarrow> response" where
  "callback_response api exchanged =
     (case exchanged of
        Inr toks \<Rightarrow> \<lparr>status = 200, body = Send (success_page (JSON_stringify api toks))\<rparr>
      | Inl err \<Rightarrow> \<lparr>status = 500, body = Send ''Authentication failed''\<rparr>)"

text \<open>The \<open>try\<close>/\<open>catch\<close> of \<open>/api/google-doc/content\<close>, given the outcome of \<open>documents.get\<close>.\<close>

definition doc_response :: "js_error + document \<Rightarrow> response" where
  "doc_response fetched =
     (case fetched of
        Inr doc \<Rightarrow> \<lparr>status = 200, body = Json_content (extract_text doc)\<rparr>
      | Inl err \<Rightarrow> \<lparr>status = 500, body = Json_error ''Failed to fetch Google Doc''\<rparr>)"

text \<open>The requests the three routes receive.\<close>

datatype request =
    GetAuthUrl "string option" "string option"
  | GetAuthCallback "string option"
  | PostDocContent doc_request_body

subsection \<open>The variant with one shared client (part\_000)\<close>

text \<open>
  \<open>oauth2Client\<close> is created once in \<open>startServer\<close> and captured by the three
  handlers: it is the server's state. A handler returns the state it leaves behind and
  its response.
\<close>

definition part000_oauth2Client :: "process_env \<Rightarrow> oauth2_client" where
  "part000_oauth2Client env =
     new_OAuth2 (GOOGLE_CLIENT_ID env) (GOOGLE_CLIENT_SECRET env) (callback_uri env)"

definition part000_auth_url :: "google_api \<Rightarrow> oauth2_client \<Rightarrow> oauth2_client \<times> response" where
  "part000_auth_url api oauth2Client =
     (oauth2Client,
      \<lparr>status = 200, body = Json_url (generateAuthUrl api oauth2Client auth_url_options)\<rparr>)"

definition part000_auth_callback ::
  "google_api \<Rightarrow> oauth2_client \<Rightarrow> string option \<Rightarrow> oauth2_client \<times> response" where
  "part000_auth_callback api oauth2Client code =
     (oauth2Client, callback_response api (getToken api oauth2Client code))"

definition part000_doc_content ::
  "google_api \<Rightarrow> oauth2_client \<Rightarrow> doc_request_body \<Rightarrow> oauth2_client \<times> response" where
  "part000_doc_content api oauth2Client req_body =
     (let client = setCredentials oauth2Client (tokens req_body)
      in (client, doc_response (documents_get api client (docId req_body))))"

fun part000_handle :: "google_api \<Rightarrow> oauth2_client \<Rightarrow> request \<Rightarrow> oauth2_client \<times> response" where
  "part000_handle api st (GetAuthUrl cid secret) = part000_auth_url api st"
| "part000_handle api st (GetAuthCallback code) = part000_auth_callback api st code"
| "part000_handle api st (PostDocContent req_body) = part000_doc_content api st req_body"

subsection \<open>The variant with one client per request (part\_001)\<close>

definition getOAuth2Client ::
  "process_env \<Rightarrow> string option \<Rightarrow> string option \<Rightarrow> oauth2_client" where
  "getOAuth2Client env cid secret =
     new_OAuth2 (js_or cid (GOOGLE_CLIENT_ID env)) (js_or secret (GOOGLE_CLIENT_SECRET env))
       (callback_uri env)"

definition part001_auth_url ::
  "process_env \<Rightarrow> google_api \<Rightarrow> string option \<Rightarrow> string option \<Rightarrow> response" where
  "part001_auth_url env api cid secret =
     (let client = getOAuth2Client env cid secret
      in \<lparr>status = 200, body = Json_url (generateAuthUrl api client auth_url_options)\<rparr>)"

definition part001_auth_callback ::
  "process_env \<Rightarrow> google_api \<Rightarrow> string option \<Rightarrow> response" where
  "part001_auth_callback env api code =
     (let client = getOAuth2Client env None None
      in callback_response api (getToken api client code))"

definition part001_doc_content ::
  "process_env \<Rightarrow> google_api \<Rightarrow> doc_request_body \<Rightarrow> response" where
  "part001_doc_content env api req_body =
     (let client = setCredentials
            (getOAuth2Client env (body_clientId req_body) (body_clientSecret req_body))
            (tokens req_body)
      in doc_response (documents_get api client (docId req_body)))"

fun part001_handle :: "process_env \<Rightarrow> google_api \<Rightarrow> request \<Rightarrow> response" where
  "part001_handle env api (GetAuthUrl cid secret) = part001_auth_url env api cid secret"
| "part001_handle env api (GetAuthCallback code) = part001_auth_callback env api code"
| "part001_handle env api (PostDocContent req_body) = part001_doc_content env api req_body"

section \<open>The generative-AI service (geminiService.ts)\<close>

subsection \<open>Data\<close>

text \<open>
  The interfaces \<open>Section\<close> and \<open>ProcessedNotes\<close>. The values come out of
  \<open>JSON.parse\<close>, where TypeScript's types are not checked, so every field may be
  absent.
\<close>

record note_section =
  heading :: "string option"
  content :: "string option"
  isElaborated :: "bool option"
  diagrams :: "string list option"
  diagramImages :: "string list option"

record processed_notes =
  title :: "string option"
  sections :: "note_section list option"

text \<open>The empty object \<open>{}\<close> read as a \<open>ProcessedNotes\<close>.\<close>

definition empty_object :: processed_notes where
  "empty_object = \<lparr>title = None, sections = None\<rparr>"

text \<open>JSON values and the response schemas of the service (\<open>Type.OBJECT\<close> and so on).\<close>

datatype json =
    JNull
  | JBool bool
  | JString string
  | JArray "json list"
  | JObject "(string \<times> json) list"

datatype schema =
    STRING
  | BOOLEAN
  | ARRAY schema
  | OBJECT "(string \<times> schema) list" "string list"

text \<open>
  What the service promises about a response generated under a schema: the value has the
  schema's type, an object has every required property, and each listed property that is
  present conforms to its own schema.
\<close>

fun conforms :: "schema \<Rightarrow> json \<Rightarrow> bool" where
  "conforms STRING v = (case v of JString s \<Rightarrow> True | _ \<Rightarrow> False)"
| "conforms BOOLEAN v = (case v of JBool b \<Rightarrow> True | _ \<Rightarrow> False)"
| "conforms (ARRAY items) v =
     (case v of JArray xs \<Rightarrow> (\<forall>x \<in> set xs. conforms items x) | _ \<Rightarrow> False)"
| "conforms (OBJECT properties required) v =
     (case v of
        JObject kvs \<Rightarrow>
          (\<forall>k \<in> set required. map_of kvs k \<noteq> None) \<and>
          (\<forall>(k, sch) \<in> set properties.
             case map_of kvs k of None \<Rightarrow> True | Some x \<Rightarrow> conforms sch x)
      | _ \<Rightarrow> False)"

text \<open>The JSON value that a \<open>ProcessedNotes\<close> stands for: absent fields are left out.\<close>

definition opt_field :: "string \<Rightarrow> json option \<Rightarrow> (string \<times> json) list" where
  "opt_field k v = (case v of None \<Rightarrow> [] | Some x \<Rightarrow> [(k, x)])"

definition strings_json :: "string list \<Rightarrow> json" where
  "strings_json xs = JArray (map JString xs)"

definition section_json :: "note_section \<Rightarrow> json" where
  "section_json s = JObject
     (opt_field ''heading'' (map_option JString (heading s)) @
      opt_field ''content'' (map_option JString (content s)) @
      opt_field ''isElaborated'' (map_option JBool (isElaborated s)) @
      opt_field ''diagrams'' (map_option strings_json (diagrams s)) @
      opt_field ''diagramImages'' (map_option strings_json (diagramImages s)))"

definition notes_json :: "processed_notes \<Rightarrow> json" where
  "notes_json n = JObject
     (opt_field ''title'' (map_option JString (title n)) @
      opt_field ''sections'' (map_option (\<lambda>ss. JArray (map section_json ss)) (sections n)))"

text \<open>A \<open>generateContent\<close> request and the parts of its response that are read.\<close>

datatype request_part =
    TextPart string
  | InlineDataPart string "string option"

record generate_request =
  model :: string
  parts :: "request_part list"
  systemInstruction :: "string option"
  responseMimeType :: "string option"
  responseSchema :: "schema option"
  aspectRatio :: "string option"

record inline_data =
  data :: string

record response_part =
  inlineData :: "inline_data option"

text \<open>
  \<open>response_text\<close> is \<open>response.text\<close>; \<open>candidate_parts\<close> is
  \<open>response.candidates?.[0]?.content?.parts\<close>, absent when any link of the chain is.
\<close>

record generate_response =
  response_text :: "string option"
  candidate_parts :: "response_part list option"

text \<open>
  What lies outside the client: the AI service, \<open>JSON.parse\<close> (read at the type
  \<open>ProcessedNotes\<close>), the \<open>FileReader\<close> (\<open>reader.result\<close> is \<open>null\<close> when the
  read failed) and the \<open>fetch\<close> of \<open>/api/google-doc/content\<close> with the \<open>content\<close>
  field of its JSON body. \<open>settles_at\<close> is the time that the service takes to settle a
  call: it decides which of several calls started together is the first to reject.
\<close>

type_synonym file_handle = string

record client_env =
  generateContent :: "generate_request \<Rightarrow> js_error + generate_response"
  JSON_parse :: "string \<Rightarrow> js_error + processed_notes"
  readAsDataURL :: "file_handle \<Rightarrow> string option"
  fetch_content :: "string \<Rightarrow> oauth_tokens \<Rightarrow> js_error + string option"
  settles_at :: "generate_request \<Rightarrow> nat"

subsection \<open>Effects\<close>

text \<open>
  The calls a run makes, in the order in which they are started, and the one place where
  the result reaches the preview.
\<close>

datatype event =
    ReadFile file_handle
  | FetchGoogleDoc string oauth_tokens
  | GenerateContent generate_request
  | SetProcessedData processed_notes

text \<open>An asynchronous computation: the events it causes and how it settles.\<close>

type_synonym 'a effect = "event list \<times> (js_error + 'a)"

definition resolve :: "'a \<Rightarrow> 'a effect" where
  "resolve x = ([], Inr x)"

definition throw :: "string \<Rightarrow> 'a effect" where
  "throw msg = ([], Inl (JsError (Some msg)))"

text \<open>\<open>await m\<close>, then the rest \<open>f\<close>: a rejection skips the rest.\<close>

definition and_then :: "'a effect \<Rightarrow> ('a \<Rightarrow> 'b effect) \<Rightarrow> 'b effect" where
  "and_then m f =
     (case m of
        (evs, Inl err) \<Rightarrow> (evs, Inl err)
      | (evs, Inr x) \<Rightarrow> (case f x of (evs', r) \<Rightarrow> (evs @ evs', r)))"

text \<open>
  A computation that is started together with others, and the time at which it settles.
\<close>

type_synonym 'a raced = "'a effect \<times> nat"

text \<open>
  \<open>Promise.all\<close> over computations that have all been started: every event happens.
  It resolves, with all the values, when the last of them has resolved; it rejects as
  soon as one of them rejects, with the reason of the rejection that settles first (of
  two that settle at the same time, the one that stands first in the list).
\<close>

fun promise_all :: "'a raced list \<Rightarrow> 'a list raced" where
  "promise_all [] = (([], Inr []), 0)"
| "promise_all ((m, t) # ms) =
     (case promise_all ms of
        ((evs', rs), t') \<Rightarrow>
          (case snd m of
             Inl err \<Rightarrow>
               (case rs of
                  Inl err' \<Rightarrow>
                    if t' < t then ((fst m @ evs', Inl err'), t')
                    else ((fst m @ evs', Inl err), t)
                | Inr xs \<Rightarrow> ((fst m @ evs', Inl err), t))
           | Inr x \<Rightarrow>
               (case rs of
                  Inl err' \<Rightarrow> ((fst m @ evs', Inl err'), t')
                | Inr xs \<Rightarrow> ((fst m @ evs', Inr (x # xs)), max t t'))))"

subsection \<open>analyzeNotes\<close>

definition systemInstruction_text :: string where
  \<open>systemInstruction_text = join_lines
     [[],
      ''    You are a "Smart Scribbler" assistant. Your task is to transform handwritten notes or digital documents into a professional, structured format.'',
      ''    '',
      ''    Rules:'',
      ''    1. UNDERLINED WORDS: Identify words or phrases that are underlined for emphasis. Elaborate on these concepts significantly, providing detailed context, definitions, or examples.'',
      ''    2. EMPTY HEADINGS: If you find a heading or title with no content under it, generate concise but highly contextual information that fits the overall theme of the notes.'',
      ''    3. DIAGRAMS: If there are any diagrams, sketches, or charts, provide a detailed textual description of them. Start these descriptions with "[DIAGRAM_DESCRIPTION]: ".'',
      ''    4. CONCISENESS: For all other parts of the notes, keep the summary concise, scannable, and to the point.'',
      ''    5. STRUCTURE: Use Markdown for the output. Use clear headings (H1, H2, H3).'',
      ''    6. OUTPUT FORMAT: Return a JSON object with the following structure:'',
      ''       {'',
      ''         "title": "Main Title of the Notes",'',
      ''         "sections": ['',
      ''           {'',
      ''             "heading": "Section Heading",'',
      ''             "content": "Elaborated or concise content in Markdown",'',
      ''             "isElaborated": boolean,'',
      ''             "diagrams": ["Description of diagram 1", ...]'',
      ''           }'',
      ''         ]'',
      ''       }'',
      ''  '']\<close>

definition analyze_responseSchema :: schema where
  "analyze_responseSchema =
     OBJECT
       [(''title'', STRING),
        (''sections'',
         ARRAY
           (OBJECT
              [(''heading'', STRING),
               (''content'', STRING),
               (''isElaborated'', BOOLEAN),
               (''diagrams'', ARRAY STRING)]
              [''heading'', ''content'']))]
       [''title'', ''sections'']"

text \<open>\<open>img.data.split(',')[1]\<close>: the second piece, \<open>undefined\<close> without a comma.\<close>

definition split_comma_second :: "string \<Rightarrow> string option" where
  "split_comma_second s =
     (case dropWhile (\<lambda>c. c \<noteq> CHR '','') s of
        [] \<Rightarrow> None
      | c # rest \<Rightarrow> Some (takeWhile (\<lambda>c. c \<noteq> CHR '','') rest))"

datatype analyze_input =
    ImageInput "string option list"
  | TextInput "string option"

text \<open>The image parts; reading \<open>split\<close> off a \<open>null\<close> data URL throws.\<close>

fun image_parts :: "string option list \<Rightarrow> js_error + request_part list" where
  "image_parts [] = Inr []"
| "image_parts (None # imgs) =
     Inl (JsError (Some ''Cannot read properties of null (reading 'split')''))"
| "image_parts (Some d # imgs) =
     (case image_parts imgs of
        Inl err \<Rightarrow> Inl err
      | Inr ps \<Rightarrow> Inr (InlineDataPart ''image/jpeg'' (split_comma_second d) # ps))"

definition analysis_contents :: "analyze_input \<Rightarrow> js_error + request_part list" where
  "analysis_contents input =
     (case input of
        ImageInput imgs \<Rightarrow>
          (case image_parts imgs of
             Inl err \<Rightarrow> Inl err
           | Inr ps \<Rightarrow>
               Inr (TextPart ''Analyze these handwritten notes according to the rules.'' # ps))
      | TextInput d \<Rightarrow> Inr [TextPart (''Analyze these notes: '' @ opt_to_string d)])"

definition analysis_request :: "request_part list \<Rightarrow> generate_request" where
  "analysis_request contents =
     \<lparr>model = ''gemini-3-flash-preview'',
      parts = contents,
      systemInstruction = Some systemInstruction_text,
      responseMimeType = Some ''application/json'',
      responseSchema = Some analyze_responseSchema,
      aspectRatio = None\<rparr>"

text \<open>\<open>response.text || "{}"\<close>.\<close>

definition text_or_empty_object :: "string option \<Rightarrow> string" where
  "text_or_empty_object t =
     (case t of None \<Rightarrow> ''{}'' | Some s \<Rightarrow> if s = [] then ''{}'' else s)"

text \<open>The last line of \<open>analyzeNotes\<close>: what is returned for a response.\<close>

definition parse_response :: "client_env \<Rightarrow> generate_response \<Rightarrow> js_error + processed_notes" where
  "parse_response env resp = JSON_parse env (text_or_empty_object (response_text resp))"

definition analyzeNotes :: "client_env \<Rightarrow> analyze_input \<Rightarrow> processed_notes effect" where
  "analyzeNotes env input =
     (case analysis_contents input of
        Inl err \<Rightarrow> ([], Inl err)
      | Inr contents \<Rightarrow>
          ([GenerateContent (analysis_request contents)],
           case generateContent env (analysis_request contents) of
             Inl err \<Rightarrow> Inl err
           | Inr resp \<Rightarrow> parse_response env resp))"

subsection \<open>generateDiagramImage\<close>

definition image_request :: "string \<Rightarrow> generate_request" where
  "image_request description =
     \<lparr>model = ''gemini-2.5-flash-image'',
      parts =
        [TextPart
           (''Create a professional, clean, technical diagram based on this description: ''
              @ description @ ''. Use a white background and clear lines.'')],
      systemInstruction = None,
      responseMimeType = None,
      responseSchema = None,
      aspectRatio = Some ''16:9''\<rparr>"

text \<open>The \<open>for\<close> loop over the parts: the first part with inline data decides.\<close>

fun first_inline_image :: "response_part list \<Rightarrow> string option" where
  "first_inline_image [] = None"
| "first_inline_image (part # rest) =
     (case inlineData part of
        Some d \<Rightarrow> Some (''data:image/png;base64,'' @ data d)
      | None \<Rightarrow> first_inline_image rest)"

definition image_of_response :: "generate_response \<Rightarrow> string option" where
  "image_of_response resp =
     first_inline_image (case candidate_parts resp of None \<Rightarrow> [] | Some ps \<Rightarrow> ps)"

definition generateDiagramImage :: "client_env \<Rightarrow> string \<Rightarrow> string option effect" where
  "generateDiagramImage env description =
     ([GenerateContent (image_request description)],
      case generateContent env (image_request description) of
        Inl err \<Rightarrow> Inl err
      | Inr resp \<Rightarrow> Inr (image_of_response resp))"

section \<open>The client (part\_002)\<close>

subsection \<open>State\<close>

text \<open>The \<open>useState\<close> cells of \<open>App\<close>.\<close>

datatype output_type = Pdf | Ppt

record app_state =
  files :: "file_handle list"
  docUrl :: string
  isProcessing :: bool
  processedData :: "processed_notes option"
  outputType :: output_type
  error :: "string option"
  googleTokens :: "oauth_tokens option"

subsection \<open>The document id in a Google Doc URL\<close>

text \<open>
  \<open>docUrl.match(/[-\w]{25,}/)?.[0]\<close>: the leftmost run of at least 25 characters
  out of letters, digits, underscore and hyphen, taken as far as it goes.
\<close>

definition is_id_char :: "char \<Rightarrow> bool" where
  "is_id_char c =
     (let n = (of_char c :: nat)
      in (97 \<le> n \<and> n \<le> 122) \<or> (65 \<le> n \<and> n \<le> 90) \<or> (48 \<le> n \<and> n \<le> 57)
         \<or> c = CHR ''_'' \<or> c = CHR ''-'')"

fun docId_match :: "string \<Rightarrow> string option" where
  "docId_match [] = None"
| "docId_match (c # cs) =
     (let run = takeWhile is_id_char (c # cs)
      in if 25 \<le> length run then Some run else docId_match cs)"

subsection \<open>processNotes\<close>

text \<open>
  One entry of \<open>sectionsWithImages\<close>: a section with a non-empty \<open>diagrams\<close> list
  gets the images that are not \<open>null\<close>; any other section is returned as it is.
\<close>

definition non_null :: "string option list \<Rightarrow> string list" where
  "non_null images = map the (filter (\<lambda>img. img \<noteq> None) images)"

text \<open>The image calls of a section, all started by the \<open>map\<close>.\<close>

definition image_promises :: "client_env \<Rightarrow> string list \<Rightarrow> string option raced list" where
  "image_promises env ds =
     map (\<lambda>desc. (generateDiagramImage env desc, settles_at env (image_request desc))) ds"

definition section_with_images :: "client_env \<Rightarrow> note_section \<Rightarrow> note_section raced" where
  "section_with_images env s =
     (case diagrams s of
        Some ds \<Rightarrow>
          if ds \<noteq> [] then
            (case promise_all (image_promises env ds) of
               (all_images, t) \<Rightarrow>
                 (and_then all_images
                    (\<lambda>images. resolve (s\<lparr>diagramImages := Some (non_null images)\<rparr>)),
                  t))
          else (resolve s, 0)
      | None \<Rightarrow> (resolve s, 0))"

text \<open>The \<open>if\<close>/\<open>else if\<close>/\<open>else\<close> that collects the input and calls \<open>analyzeNotes\<close>.\<close>

definition read_files :: "client_env \<Rightarrow> file_handle list \<Rightarrow> string option list effect" where
  "read_files env fs = (map ReadFile fs, Inr (map (readAsDataURL env) fs))"

definition fetch_google_doc :: "client_env \<Rightarrow> string \<Rightarrow> oauth_tokens \<Rightarrow> string option effect" where
  "fetch_google_doc env doc_id toks = ([FetchGoogleDoc doc_id toks], fetch_content env doc_id toks)"

definition analyze_input_of :: "client_env \<Rightarrow> app_state \<Rightarrow> processed_notes effect" where
  "analyze_input_of env st =
     (if files st \<noteq> [] then
        and_then (read_files env (files st))
          (\<lambda>imageData. analyzeNotes env (ImageInput imageData))
      else
        (case (docUrl st \<noteq> [], googleTokens st) of
           (True, Some toks) \<Rightarrow>
             (case docId_match (docUrl st) of
                None \<Rightarrow> throw ''Invalid Google Doc URL''
              | Some doc_id \<Rightarrow>
                  and_then (fetch_google_doc env doc_id toks)
                    (\<lambda>content. analyzeNotes env (TextInput content)))
         | _ \<Rightarrow> throw ''Please provide notes via image or Google Doc''))"

text \<open>The body of the \<open>try\<close> block up to \<open>setProcessedData\<close>.\<close>

definition with_images :: "client_env \<Rightarrow> processed_notes \<Rightarrow> processed_notes effect" where
  "with_images env result =
     (case sections result of
        None \<Rightarrow> throw ''Cannot read properties of undefined (reading 'map')''
      | Some ss \<Rightarrow>
          and_then (fst (promise_all (map (section_with_images env) ss)))
            (\<lambda>sectionsWithImages. resolve (result\<lparr>sections := Some sectionsWithImages\<rparr>)))"

definition try_body :: "client_env \<Rightarrow> app_state \<Rightarrow> processed_notes effect" where
  "try_body env st = and_then (analyze_input_of env st) (with_images env)"

text \<open>\<open>err.message || 'Failed to process notes'\<close>.\<close>

definition error_text :: "js_error \<Rightarrow> string" where
  "error_text err =
     (case message err of
        None \<Rightarrow> ''Failed to process notes''
      | Some m \<Rightarrow> if m = [] then ''Failed to process notes'' else m)"

text \<open>A run of \<open>processNotes\<close>: the state it leaves and the events it caused.\<close>

definition processNotes :: "client_env \<Rightarrow> app_state \<Rightarrow> app_state \<times> event list" where
  "processNotes env st =
     (let st1 = st\<lparr>isProcessing := True, error := None\<rparr>
      in case try_body env st1 of
           (evs, Inr result) \<Rightarrow>
             (st1\<lparr>processedData := Some result, isProcessing := False\<rparr>,
              evs @ [SetProcessedData result])
         | (evs, Inl err) \<Rightarrow>
             (st1\<lparr>error := Some (error_text err), isProcessing := False\<rparr>, evs))"

subsection \<open>exportToPpt\<close>

text \<open>
  The presentation under construction: its slides in the order of \<open>addSlide\<close>, each
  with the items added to it. A slide object is its index. Option objects are kept as
  lists of their entries.
\<close>

type_synonym options = "(string \<times> string) list"

datatype slide_item =
    AddText "string option" options
  | AddImage options

type_synonym pptx = "slide_item list list"

definition addSlide :: "pptx \<Rightarrow> pptx \<times> nat" where
  "addSlide ppt = (ppt @ [[]], length ppt)"

definition add_item :: "pptx \<Rightarrow> nat \<Rightarrow> slide_item \<Rightarrow> pptx" where
  "add_item ppt slide item = ppt[slide := ppt ! slide @ [item]]"

definition title_options :: options where
  "title_options =
     [(''x'', ''1''), (''y'', ''1.5''), (''w'', ''80%''), (''h'', ''1''), (''fontSize'', ''44''),
      (''bold'', ''true''), (''align'', ''center'')]"

definition heading_options :: options where
  "heading_options =
     [(''x'', ''0.5''), (''y'', ''0.5''), (''w'', ''90%''), (''h'', ''0.5''), (''fontSize'', ''28''),
      (''bold'', ''true''), (''color'', ''363636'')]"

definition content_options :: options where
  "content_options =
     [(''x'', ''0.5''), (''y'', ''1.2''), (''w'', ''90%''), (''h'', ''3''), (''fontSize'', ''14''),
      (''color'', ''666666''), (''bullet'', ''true'')]"

definition caption_options :: options where
  "caption_options = [(''x'', ''0.5''), (''y'', ''0.3''), (''fontSize'', ''18'')]"

definition image_options :: "string \<Rightarrow> options" where
  "image_options img = [(''data'', img), (''x'', ''0.5''), (''y'', ''1''), (''w'', ''9''), (''h'', ''5'')]"

text \<open>The body of the inner \<open>forEach\<close>: one slide for one diagram image.\<close>

definition export_diagram :: "note_section \<Rightarrow> pptx \<Rightarrow> string \<Rightarrow> pptx" where
  "export_diagram section ppt img =
     (case addSlide ppt of
        (ppt1, diagSlide) \<Rightarrow>
          (let ppt2 = add_item ppt1 diagSlide
                 (AddText (Some (opt_to_string (heading section) @ '' - Diagram'')) caption_options)
           in add_item ppt2 diagSlide (AddImage (image_options img))))"

text \<open>The body of the outer \<open>forEach\<close>: the slides of one section.\<close>

definition export_section :: "pptx \<Rightarrow> note_section \<Rightarrow> pptx" where
  "export_section ppt section =
     (case addSlide ppt of
        (ppt1, slide) \<Rightarrow>
          (let ppt2 = add_item ppt1 slide (AddText (heading section) heading_options);
               ppt3 = add_item ppt2 slide (AddText (content section) content_options)
           in case diagramImages section of
                Some imgs \<Rightarrow>
                  if imgs \<noteq> [] then foldl (export_diagram section) ppt3 imgs else ppt3
              | None \<Rightarrow> ppt3))"

text \<open>
  The class \<open>\s\<close> of JavaScript: U+0009 to U+000D, U+0020, U+00A0, U+1680, U+2000 to
  U+200A, U+2028, U+2029, U+202F, U+205F, U+3000 and U+FEFF. A string is its UTF-8 bytes,
  so a character of the class is one, two or three bytes long; \<open>space_length\<close> is the
  number of bytes of such a character at the head of a string, and 0 when there is none.
\<close>

definition space_length :: "string \<Rightarrow> nat" where
  "space_length s =
     (let bytes = (map of_char s :: nat list)
      in if take 1 bytes \<in> set [[9], [10], [11], [12], [13], [32]] then 1
         else if take 2 bytes = [194, 160] then 2
         else if take 3 bytes \<in>
                   set ([[225, 154, 128], [226, 128, 168], [226, 128, 169], [226, 128, 175],
                         [226, 129, 159], [227, 128, 128], [239, 187, 191]]
                        @ map (\<lambda>b. [226, 128, b]) [128..<139])
         then 3
         else 0)"

text \<open>\<open>title.replace(/\s+/g, '_')\<close>; the flag says that a run of white space is open.\<close>

function replace_spaces :: "bool \<Rightarrow> string \<Rightarrow> string" where
  "replace_spaces in_run [] = []"
| "replace_spaces in_run (c # cs) =
     (if 0 < space_length (c # cs) then
        (if in_run then [] else ''_'') @
        replace_spaces True (drop (space_length (c # cs) - 1) cs)
      else c # replace_spaces False cs)"
  by pat_completeness auto
termination
  by (relation "measure (\<lambda>(in_run, s). length s)") auto

definition pptx_fileName :: "string \<Rightarrow> string" where
  "pptx_fileName t = replace_spaces False t @ ''.pptx''"

text \<open>
  \<open>exportToPpt\<close>: \<open>None\<close> when it returns at once; otherwise the slides built and
  either the name given to \<open>writeFile\<close> or the error thrown on the way.
\<close>

definition exportToPpt :: "processed_notes option \<Rightarrow> (pptx \<times> (js_error + string)) option" where
  "exportToPpt processed =
     (case processed of
        None \<Rightarrow> None
      | Some d \<Rightarrow>
          (case addSlide [] of
             (ppt0, slide) \<Rightarrow>
               (let ppt1 = add_item ppt0 slide (AddText (title d) title_options)
                in case sections d of
                     None \<Rightarrow>
                       Some (ppt1,
                         Inl (JsError (Some ''Cannot read properties of undefined (reading 'forEach')'')))
                   | Some ss \<Rightarrow>
                       (let ppt2 = foldl export_section ppt1 ss
                        in case title d of
                             None \<Rightarrow>
                               Some (ppt2,
                                 Inl (JsError (Some ''Cannot read properties of undefined (reading 'replace')'')))
                           | Some t \<Rightarrow> Some (ppt2, Inr (pptx_fileName t))))))"

section \<open>Notions used to state the properties\<close>

subsection \<open>Server\<close>

text \<open>The \<open>textRun\<close> contents of a document, in document order.\<close>

definition element_runs :: "paragraph_element \<Rightarrow> js_str list" where
  "element_runs el = (case textRun el of None \<Rightarrow> [] | Some tr \<Rightarrow> [textRun_content tr])"

definition paragraph_runs :: "structural_element \<Rightarrow> js_str list" where
  "paragraph_runs element =
     (case element_paragraph element of
        None \<Rightarrow> []
      | Some p \<Rightarrow> (case elements p of None \<Rightarrow> [] | Some els \<Rightarrow> concat (map element_runs els)))"

definition document_runs :: "document \<Rightarrow> js_str list" where
  "document_runs doc =
     (case body_content doc of None \<Rightarrow> [] | Some els \<Rightarrow> concat (map paragraph_runs els))"

text \<open>The shared client of part\_000 after a sequence of requests.\<close>

fun part000_serve :: "google_api \<Rightarrow> oauth2_client \<Rightarrow> request list \<Rightarrow> oauth2_client" where
  "part000_serve api st [] = st"
| "part000_serve api st (r # rs) = part000_serve api (fst (part000_handle api st r)) rs"

text \<open>The two responses of \<open>/auth/callback\<close>.\<close>

definition auth_success :: "google_api \<Rightarrow> oauth_tokens \<Rightarrow> response" where
  "auth_success api toks = \<lparr>status = 200, body = Send (success_page (JSON_stringify api toks))\<rparr>"

definition auth_failed :: response where
  "auth_failed = \<lparr>status = 500, body = Send ''Authentication failed''\<rparr>"

subsection \<open>Client\<close>

text \<open>The stage of the pipeline that an event belongs to.\<close>

definition stage :: "event \<Rightarrow> nat" where
  "stage ev =
     (case ev of
        ReadFile f \<Rightarrow> 0
      | FetchGoogleDoc d t \<Rightarrow> 0
      | GenerateContent req \<Rightarrow> (if model req = ''gemini-2.5-flash-image'' then 2 else 1)
      | SetProcessedData d \<Rightarrow> 3)"

definition count_stage :: "nat \<Rightarrow> event list \<Rightarrow> nat" where
  "count_stage k evs = length (filter (\<lambda>ev. stage ev = k) evs)"

text \<open>The diagram descriptions of a section and of a whole result, in order.\<close>

definition section_descriptions :: "note_section \<Rightarrow> string list" where
  "section_descriptions s = (case diagrams s of None \<Rightarrow> [] | Some ds \<Rightarrow> ds)"

definition image_calls :: "note_section list \<Rightarrow> event list" where
  "image_calls ss =
     map (\<lambda>d. GenerateContent (image_request d)) (concat (map section_descriptions ss))"

text \<open>The slides that the export is said to make for one section.\<close>

definition diagram_slide :: "note_section \<Rightarrow> string \<Rightarrow> slide_item list" where
  "diagram_slide s img =
     [AddText (Some (opt_to_string (heading s) @ '' - Diagram'')) caption_options,
      AddImage (image_options img)]"

definition section_slides :: "note_section \<Rightarrow> slide_item list list" where
  "section_slides s =
     [AddText (heading s) heading_options, AddText (content s) content_options] #
     map (diagram_slide s) (case diagramImages s of None \<Rightarrow> [] | Some imgs \<Rightarrow> imgs)"

text \<open>The image that \<open>generateDiagramImage\<close> returns for a description, if it returns.\<close>

definition generated_image :: "client_env \<Rightarrow> string \<Rightarrow> string option" where
  "generated_image env description =
     (case generateContent env (image_request description) of
        Inl err \<Rightarrow> None
      | Inr resp \<Rightarrow> image_of_response resp)"

text \<open>
  A run in four stages: input events, at most one analysis call, image calls, at most one
  render; image calls and the render only after the analysis has returned a result.
\<close>

definition staged_run :: "client_env \<Rightarrow> app_state \<Rightarrow> event list \<Rightarrow> event list \<Rightarrow> event list \<Rightarrow> event list \<Rightarrow> bool" where
  "staged_run env st a b c d \<longleftrightarrow>
     snd (processNotes env st) = a @ b @ c @ d \<and>
     (\<forall>ev \<in> set a. stage ev = 0) \<and> (\<forall>ev \<in> set b. stage ev = 1) \<and>
     (\<forall>ev \<in> set c. stage ev = 2) \<and> (\<forall>ev \<in> set d. stage ev = 3) \<and>
     length a \<le> max 1 (length (files st)) \<and> length b \<le> 1 \<and> length d \<le> 1 \<and>
     (c \<noteq> [] \<or> d \<noteq> [] \<longrightarrow>
        length b = 1 \<and> (\<exists>result. snd (analyze_input_of env st) = Inr result)) \<and>
     (d = [] \<longleftrightarrow> (\<exists>err. snd (try_body env st) = Inl err))"

text \<open>The number of diagram descriptions in what the analysis returned.\<close>

definition described :: "js_error + processed_notes \<Rightarrow> nat" where
  "described analysed =
     (case analysed of
        Inl err \<Rightarrow> 0
      | Inr result \<Rightarrow>
          (case sections result of
             None \<Rightarrow> 0
           | Some ss \<Rightarrow> length (concat (map section_descriptions ss))))"

section \<open>Concrete inputs\<close>

subsection \<open>Server\<close>

definition demo_env :: process_env where
  "demo_env =
     \<lparr>GOOGLE_CLIENT_ID = Some ''id-123'', GOOGLE_CLIENT_SECRET = Some ''s3cret'',
      APP_URL = Some ''https://app.example''\<rparr>"

definition demo_tokens :: oauth_tokens where
  "demo_tokens = \<lparr>access_token = Some ''ya29.userA'', refresh_token = None\<rparr>"

definition run :: "string \<Rightarrow> paragraph_element" where
  "run s = \<lparr>textRun = Some \<lparr>textRun_content = Str s\<rparr>\<rparr>"

definition demo_doc :: document where
  "demo_doc =
     \<lparr>body_content = Some
        [\<lparr>element_paragraph = Some \<lparr>elements = Some [run ''Hello '', \<lparr>textRun = None\<rparr>, run ''world'']\<rparr>\<rparr>,
         \<lparr>element_paragraph = None\<rparr>,
         \<lparr>element_paragraph = Some \<lparr>elements = Some [run ''!'']\<rparr>\<rparr>]\<rparr>"

definition demo_api :: google_api where
  \<open>demo_api =
     \<lparr>generateAuthUrl =
        (\<lambda>client opts. ''https://accounts.google.com/o/oauth2/v2/auth?client_id=''
           @ opt_to_string (clientId client)),
      getToken =
        (\<lambda>client code.
           if code = Some ''good-code'' then Inr demo_tokens
           else Inl (JsError (Some ''invalid_grant''))),
      documents_get =
        (\<lambda>client d.
           if d = Some ''doc-1'' \<and> credentials client = Some demo_tokens then Inr demo_doc
           else Inl (JsError (Some ''Requested entity was not found.''))),
      JSON_stringify =
        (\<lambda>toks. ''{"access_token":"'' @ opt_to_string (access_token toks) @ ''"}'')\<rparr>\<close>

definition demo_body :: doc_request_body where
  "demo_body =
     \<lparr>docId = Some ''doc-1'', tokens = Some demo_tokens,
      body_clientId = None, body_clientSecret = None\<rparr>"

subsection \<open>Client\<close>

definition demo_section :: note_section where
  "demo_section =
     \<lparr>heading = Some ''Mitosis'', content = Some ''Four phases.'', isElaborated = None,
      diagrams = Some [''spindle'', ''membrane''], diagramImages = None\<rparr>"

definition demo_notes :: processed_notes where
  "demo_notes = \<lparr>title = Some ''Cell  biology'', sections = Some [demo_section]\<rparr>"

definition demo_text :: string where
  \<open>demo_text =
     ''{"title":"Cell  biology","sections":[{"heading":"Mitosis","content":"Four phases.","diagrams":["spindle","membrane"]}]}''\<close>

text \<open>
  A service that answers the analysis with \<open>demo_text\<close>, draws the second diagram and
  answers the first one with text only; \<open>JSON.parse\<close> as far as it is asked.
\<close>

definition demo_generateContent :: "generate_request \<Rightarrow> js_error + generate_response" where
  "demo_generateContent req =
     (if model req = ''gemini-3-flash-preview'' then
        Inr \<lparr>response_text = Some demo_text, candidate_parts = None\<rparr>
      else if parts req = parts (image_request ''membrane'') then
        Inr \<lparr>response_text = None,
             candidate_parts = Some [\<lparr>inlineData = None\<rparr>, \<lparr>inlineData = Some \<lparr>data = ''iVBORw0KGgo=''\<rparr>\<rparr>]\<rparr>
      else
        Inr \<lparr>response_text = Some ''I cannot draw this.'',
             candidate_parts = Some [\<lparr>inlineData = None\<rparr>]\<rparr>)"

definition demo_JSON_parse :: "string \<Rightarrow> js_error + processed_notes" where
  "demo_JSON_parse s =
     (if s = ''{}'' then Inr empty_object
      else if s = demo_text then Inr demo_notes
      else Inl (JsError (Some ''Unexpected token'')))"

definition demo_client :: client_env where
  "demo_client =
     \<lparr>generateContent = demo_generateContent,
      JSON_parse = demo_JSON_parse,
      readAsDataURL = (\<lambda>f. Some (''data:image/jpeg;base64,'' @ f)),
      fetch_content = (\<lambda>d toks. Inr (Some ''notes text'')),
      settles_at = (\<lambda>req. if parts req = parts (image_request ''spindle'') then 900 else 400)\<rparr>"

text \<open>The same client with a service whose response carries no text.\<close>

definition silent_client :: client_env where
  "silent_client =
     demo_client\<lparr>generateContent := (\<lambda>req. Inr \<lparr>response_text = None, candidate_parts = None\<rparr>)\<rparr>"

text \<open>
  Services that fail: one that rejects both image calls, the second call settling before
  the first; one that rejects every call; and a \<open>fetch\<close> that rejects.
\<close>

definition failing_generateContent :: "generate_request \<Rightarrow> js_error + generate_response" where
  "failing_generateContent req =
     (if model req = ''gemini-3-flash-preview'' then
        Inr \<lparr>response_text = Some demo_text, candidate_parts = None\<rparr>
      else if parts req = parts (image_request ''spindle'') then
        Inl (JsError (Some ''spindle: quota exceeded''))
      else Inl (JsError (Some ''membrane: blocked'')))"

definition failing_images_client :: client_env where
  "failing_images_client = demo_client\<lparr>generateContent := failing_generateContent\<rparr>"

definition offline_client :: client_env where
  "offline_client =
     demo_client\<lparr>generateContent := (\<lambda>req. Inl (JsError (Some ''fetch failed'')))\<rparr>"

definition unreachable_client :: client_env where
  "unreachable_client =
     demo_client\<lparr>fetch_content := (\<lambda>d toks. Inl (JsError (Some ''Failed to fetch'')))\<rparr>"

definition demo_state :: app_state where
  "demo_state =
     \<lparr>files = [''/9j/4AAQ''], docUrl = [], isProcessing = False, processedData = None,
      outputType = Pdf, error = None, googleTokens = None\<rparr>"

definition empty_state :: app_state where
  "empty_state = demo_state\<lparr>files := [], processedData := Some demo_notes\<rparr>"

text \<open>A state with earlier results in which a Google Doc is given and no file.\<close>

definition demo_docId :: string where
  "demo_docId = ''1AbCdEfGhIjKlMnOpQrStUvWxYz0123456789-_ab''"

definition doc_state :: app_state where
  "doc_state =
     empty_state\<lparr>docUrl := ''https://docs.google.com/document/d/'' @ demo_docId @ ''/edit'',
                 googleTokens := Some demo_tokens\<rparr>"

definition doc_contents :: "request_part list" where
  "doc_contents = [TextPart ''Analyze these notes: notes text'']"

text \<open>The same state with files, which take precedence.\<close>

definition files_state :: app_state where
  "files_state = doc_state\<lparr>files := [''/9j/4AAQ'']\<rparr>"

text \<open>The same client with a service that answers in prose.\<close>

definition garbled_client :: client_env where
  "garbled_client =
     demo_client\<lparr>generateContent :=
       (\<lambda>req. Inr \<lparr>response_text = Some ''Sorry, no.'', candidate_parts = None\<rparr>)\<rparr>"

definition demo_image_input :: analyze_input where
  "demo_image_input = ImageInput [Some ''data:image/jpeg;base64,/9j/4AAQ'']"

definition demo_contents :: "request_part list" where
  "demo_contents =
     [TextPart ''Analyze these handwritten notes according to the rules.'',
      InlineDataPart ''image/jpeg'' (Some ''/9j/4AAQ'')]"

definition demo_image :: string where
  "demo_image = ''data:image/png;base64,iVBORw0KGgo=''"

definition demo_shown :: processed_notes where
  "demo_shown =
     demo_notes\<lparr>sections := Some [demo_section\<lparr>diagramImages := Some [demo_image]\<rparr>]\<rparr>"

section \<open>Properties of the server\<close>

subsection \<open>Text extraction\<close>

lemma foldl_append_element:
  "foldl append_element acc els = acc @ concat (map js_to_string (concat (map element_runs els)))"
  by (induction els arbitrary: acc)
     (auto simp: append_element_def element_runs_def split: option.splits)

lemma append_structural_runs:
  "append_structural acc element = acc @ concat (map js_to_string (paragraph_runs element))"
  by (simp add: append_structural_def paragraph_runs_def foldl_append_element
           split: option.splits)

lemma foldl_append_structural:
  "foldl append_structural acc els =
     acc @ concat (map js_to_string (concat (map paragraph_runs els)))"
  by (induction els arbitrary: acc) (auto simp: append_structural_runs)

lemma extract_text_runs: "extract_text doc = concat (map js_to_string (document_runs doc))"
  by (simp add: extract_text_def document_runs_def foldl_append_structural split: option.splits)

lemma strings_only:
  "concat (map (js_to_string \<circ> Str) xs) = concat xs"
  by (induction xs) auto

text \<open>
  Claim C5. A \<open>POST /api/google-doc/content\<close> whose \<open>documents.get\<close> succeeds is
  answered with \<open>{content}\<close> (status 200), where \<open>content\<close> is the concatenation, in
  document order, of the \<open>textRun\<close> contents of the elements of the paragraphs of the
  body; elements that are no paragraphs and paragraph elements without a \<open>textRun\<close> add
  nothing. When the fetch fails the answer is status 500 with
  \<open>{error: "Failed to fetch Google Doc"}\<close>. This holds in both server variants.
\<close>

theorem google_doc_content_response:
  "(documents_get api (setCredentials st (tokens b)) (docId b) = Inr doc \<longrightarrow>
      snd (part000_doc_content api st b) =
        \<lparr>status = 200, body = Json_content (concat (map js_to_string (document_runs doc)))\<rparr>) \<and>
   (documents_get api (setCredentials st (tokens b)) (docId b) = Inl err \<longrightarrow>
      snd (part000_doc_content api st b) =
        \<lparr>status = 500, body = Json_error ''Failed to fetch Google Doc''\<rparr>) \<and>
   (documents_get api
      (setCredentials (getOAuth2Client env (body_clientId b) (body_clientSecret b)) (tokens b))
      (docId b) = Inr doc \<longrightarrow>
      part001_doc_content env api b =
        \<lparr>status = 200, body = Json_content (concat (map js_to_string (document_runs doc)))\<rparr>) \<and>
   (documents_get api
      (setCredentials (getOAuth2Client env (body_clientId b) (body_clientSecret b)) (tokens b))
      (docId b) = Inl err \<longrightarrow>
      part001_doc_content env api b =
        \<lparr>status = 500, body = Json_error ''Failed to fetch Google Doc''\<rparr>) \<and>
   (document_runs doc = map Str strs \<longrightarrow>
      concat (map js_to_string (document_runs doc)) = concat strs)"
  by (simp add: part000_doc_content_def part001_doc_content_def doc_response_def
        extract_text_runs strings_only Let_def)

lemma demo_runs: "document_runs demo_doc = map Str [''Hello '', ''world'', ''!'']"
  by (simp add: document_runs_def demo_doc_def paragraph_runs_def element_runs_def run_def)

lemma demo_get:
  "documents_get demo_api (setCredentials (part000_oauth2Client demo_env) (tokens demo_body))
     (docId demo_body) = Inr demo_doc"
  by (simp add: demo_api_def demo_body_def setCredentials_def)

lemma demo_get_fails:
  "documents_get demo_api
     (setCredentials (part000_oauth2Client demo_env) (tokens (demo_body\<lparr>docId := Some ''gone''\<rparr>)))
     (docId (demo_body\<lparr>docId := Some ''gone''\<rparr>)) =
   Inl (JsError (Some ''Requested entity was not found.''))"
  by (simp add: demo_api_def demo_body_def)

theorem google_doc_content_response_witness:
  "documents_get demo_api (setCredentials (part000_oauth2Client demo_env) (tokens demo_body))
     (docId demo_body) = Inr demo_doc \<and>
   document_runs demo_doc = map Str [''Hello '', ''world'', ''!''] \<and>
   snd (part000_doc_content demo_api (part000_oauth2Client demo_env) demo_body) =
     \<lparr>status = 200, body = Json_content ''Hello world!''\<rparr> \<and>
   snd (part000_doc_content demo_api (part000_oauth2Client demo_env)
          (demo_body\<lparr>docId := Some ''gone''\<rparr>)) =
     \<lparr>status = 500, body = Json_error ''Failed to fetch Google Doc''\<rparr>"
proof -
  have ok: "snd (part000_doc_content demo_api (part000_oauth2Client demo_env) demo_body) =
     \<lparr>status = 200, body = Json_content ''Hello world!''\<rparr>"
    using google_doc_content_response
            [of demo_api "part000_oauth2Client demo_env" demo_body demo_doc _ _
                "[''Hello '', ''world'', ''!'']"]
          demo_get demo_runs
    by simp
  have failed: "snd (part000_doc_content demo_api (part000_oauth2Client demo_env)
          (demo_body\<lparr>docId := Some ''gone''\<rparr>)) =
     \<lparr>status = 500, body = Json_error ''Failed to fetch Google Doc''\<rparr>"
    using google_doc_content_response
            [of demo_api "part000_oauth2Client demo_env" "demo_body\<lparr>docId := Some ''gone''\<rparr>"
                _ "JsError (Some ''Requested entity was not found.'')"]
          demo_get_fails
    by blast
  from demo_get demo_runs ok failed show ?thesis by blast
qed

subsection \<open>The OAuth callback\<close>

lemma success_page_script:
  "\<exists>p1 p2 p3 p4 p5.
     success_page j =
       p1 @ ''if (window.opener) {'' @ p2 @
       ''window.opener.postMessage({ type: 'GOOGLE_AUTH_SUCCESS', tokens: '' @ j @ '' }, '*');'' @
       p3 @ ''} else {'' @ p4 @ ''window.location.href = '/';'' @ p5"
proof -
  have "success_page j =
       join_lines [[], ''        <html>'', ''          <body>'', ''            <script>'',
                   ''              ''] @
       ''if (window.opener) {'' @ join_lines [[], ''                ''] @
       ''window.opener.postMessage({ type: 'GOOGLE_AUTH_SUCCESS', tokens: '' @ j @ '' }, '*');'' @
       join_lines [[], ''                window.close();'', ''              ''] @
       ''} else {'' @ join_lines [[], ''                ''] @ ''window.location.href = '/';'' @
       join_lines [[], ''              }'', ''            </script>'',
         ''            <p>Authentication successful. This window should close automatically.</p>'',
         ''          </body>'', ''        </html>'', ''      '']"
    by (simp add: success_page_def post_message_line_def)
  then show ?thesis by blast
qed

text \<open>
  Claim C6. \<open>GET /auth/callback\<close> has two outcomes, decided by the exchange of the
  code for tokens: on success the page whose script posts
  \<open>{type: 'GOOGLE_AUTH_SUCCESS', tokens}\<close> to the opener and otherwise redirects to
  \<open>/\<close>; on failure status 500 with the body \<open>Authentication failed\<close>.
\<close>

theorem auth_callback_outcomes:
  "snd (part000_auth_callback api st code) =
     (case getToken api st code of
        Inr toks \<Rightarrow> auth_success api toks
      | Inl err \<Rightarrow> auth_failed) \<and>
   part001_auth_callback env api code =
     (case getToken api (getOAuth2Client env None None) code of
        Inr toks \<Rightarrow> auth_success api toks
      | Inl err \<Rightarrow> auth_failed) \<and>
   status (auth_success api t) = 200 \<and>
   (\<exists>p1 p2 p3 p4 p5.
      body (auth_success api t) =
        Send (p1 @ ''if (window.opener) {'' @ p2 @
              ''window.opener.postMessage({ type: 'GOOGLE_AUTH_SUCCESS', tokens: ''
                @ JSON_stringify api t @ '' }, '*');'' @
              p3 @ ''} else {'' @ p4 @ ''window.location.href = '/';'' @ p5)) \<and>
   auth_failed = \<lparr>status = 500, body = Send ''Authentication failed''\<rparr>"
proof -
  have a: "snd (part000_auth_callback api st code) =
     (case getToken api st code of Inr toks \<Rightarrow> auth_success api toks | Inl err \<Rightarrow> auth_failed)"
    by (simp add: part000_auth_callback_def callback_response_def auth_success_def
          auth_failed_def split: sum.splits)
  have b: "part001_auth_callback env api code =
     (case getToken api (getOAuth2Client env None None) code of
        Inr toks \<Rightarrow> auth_success api toks | Inl err \<Rightarrow> auth_failed)"
    by (simp add: part001_auth_callback_def callback_response_def auth_success_def
          auth_failed_def split: sum.splits)
  have c: "status (auth_success api t) = 200"
    by (simp add: auth_success_def)
  have d: "\<exists>p1 p2 p3 p4 p5.
      body (auth_success api t) =
        Send (p1 @ ''if (window.opener) {'' @ p2 @
              ''window.opener.postMessage({ type: 'GOOGLE_AUTH_SUCCESS', tokens: ''
                @ JSON_stringify api t @ '' }, '*');'' @
              p3 @ ''} else {'' @ p4 @ ''window.location.href = '/';'' @ p5)"
    using success_page_script [of "JSON_stringify api t"]
    by (simp add: auth_success_def)
  have e: "auth_failed = \<lparr>status = 500, body = Send ''Authentication failed''\<rparr>"
    by (simp add: auth_failed_def)
  from a b c d e show ?thesis by blast
qed

theorem auth_callback_outcomes_witness:
  "snd (part000_auth_callback demo_api (part000_oauth2Client demo_env) (Some ''good-code'')) =
     auth_success demo_api demo_tokens \<and>
   part001_auth_callback demo_env demo_api (Some ''expired'') =
     \<lparr>status = 500, body = Send ''Authentication failed''\<rparr>"
  using auth_callback_outcomes
          [where api = demo_api and st = "part000_oauth2Client demo_env"
             and code = "Some ''good-code''"]
        auth_callback_outcomes
          [where api = demo_api and env = demo_env and code = "Some ''expired''"]
  by (simp add: demo_api_def)

subsection \<open>The two server variants\<close>

lemma part000_handler_states:
  "fst (part000_auth_url api st) = st"
  "fst (part000_auth_callback api st code) = st"
  "fst (part000_doc_content api st b) = setCredentials st (tokens b)"
  by (simp_all add: part000_auth_url_def part000_auth_callback_def
        part000_doc_content_def Let_def)

lemma part000_serve_config:
  "\<exists>creds. part000_serve api (setCredentials c0 creds0) rs = setCredentials c0 creds"
proof (induction rs arbitrary: creds0)
  case Nil
  show ?case by auto
next
  case (Cons r rs)
  show ?case
  proof (cases r)
    case (PostDocContent b)
    have "setCredentials (setCredentials c0 creds0) (tokens b) = setCredentials c0 (tokens b)"
      by (simp add: setCredentials_def)
    with Cons PostDocContent show ?thesis
      by (simp add: part000_handler_states)
  qed (use Cons in \<open>simp_all add: part000_handler_states\<close>)
qed

lemma part000_serve_initial:
  "\<exists>creds. part000_serve api (part000_oauth2Client env) rs =
           setCredentials (part000_oauth2Client env) creds"
proof -
  have "part000_oauth2Client env =
        setCredentials (part000_oauth2Client env) (Some empty_credentials)"
    by (simp add: part000_oauth2Client_def new_OAuth2_def setCredentials_def)
  then show ?thesis
    using part000_serve_config [of api "part000_oauth2Client env" "Some empty_credentials" rs]
    by simp
qed

lemma getOAuth2Client_falsy:
  "\<not> truthy cid \<Longrightarrow> \<not> truthy secret \<Longrightarrow> getOAuth2Client env cid secret = part000_oauth2Client env"
  by (simp add: getOAuth2Client_def part000_oauth2Client_def js_or_def)

text \<open>
  Claim C9. For a request that supplies no \<open>clientId\<close> and no \<open>clientSecret\<close>, the
  handlers of part\_001 answer as those of part\_000 do, under the same environment and the
  same Google services: \<open>/api/google-doc/content\<close> after any earlier requests,
  \<open>/api/auth/url\<close> on the server as started, and after any earlier requests as well
  when the URL generator does not read the stored credentials.
\<close>

theorem part001_agrees_with_part000:
  assumes "\<not> truthy cid" and "\<not> truthy secret"
  shows
   "(body_clientId b = cid \<and> body_clientSecret b = secret \<longrightarrow>
       part001_handle env api (PostDocContent b) =
       snd (part000_handle api (part000_serve api (part000_oauth2Client env) earlier)
              (PostDocContent b))) \<and>
    part001_handle env api (GetAuthUrl cid secret) =
      snd (part000_handle api (part000_oauth2Client env) (GetAuthUrl cid secret)) \<and>
    ((\<forall>client creds. generateAuthUrl api (setCredentials client creds) auth_url_options =
                      generateAuthUrl api client auth_url_options) \<longrightarrow>
       part001_handle env api (GetAuthUrl cid secret) =
       snd (part000_handle api (part000_serve api (part000_oauth2Client env) earlier)
              (GetAuthUrl cid secret)))"
proof -
  obtain creds where st:
    "part000_serve api (part000_oauth2Client env) earlier =
       setCredentials (part000_oauth2Client env) creds"
    using part000_serve_initial by blast
  have client: "getOAuth2Client env cid secret = part000_oauth2Client env"
    using assms by (rule getOAuth2Client_falsy)
  have doc: "body_clientId b = cid \<and> body_clientSecret b = secret \<longrightarrow>
       part001_handle env api (PostDocContent b) =
       snd (part000_handle api (part000_serve api (part000_oauth2Client env) earlier)
              (PostDocContent b))"
    by (simp add: st client part001_doc_content_def part000_doc_content_def Let_def
          setCredentials_def)
  have url0: "part001_handle env api (GetAuthUrl cid secret) =
      snd (part000_handle api (part000_oauth2Client env) (GetAuthUrl cid secret))"
    by (simp add: client part001_auth_url_def part000_auth_url_def Let_def)
  have url: "(\<forall>client creds. generateAuthUrl api (setCredentials client creds) auth_url_options =
                      generateAuthUrl api client auth_url_options) \<longrightarrow>
       part001_handle env api (GetAuthUrl cid secret) =
       snd (part000_handle api (part000_serve api (part000_oauth2Client env) earlier)
              (GetAuthUrl cid secret))"
    by (simp add: st client part001_auth_url_def part000_auth_url_def Let_def)
  from doc url0 url show ?thesis by blast
qed

lemma demo_part001_doc:
  "part001_handle demo_env demo_api (PostDocContent demo_body) =
     \<lparr>status = 200, body = Json_content ''Hello world!''\<rparr>"
  by (simp add: part001_doc_content_def doc_response_def extract_text_runs demo_runs
        demo_api_def demo_body_def setCredentials_def Let_def)

theorem part001_agrees_with_part000_witness:
  "\<not> truthy None \<and> \<not> truthy (Some []) \<and>
   part001_handle demo_env demo_api (PostDocContent demo_body) =
     \<lparr>status = 200, body = Json_content ''Hello world!''\<rparr> \<and>
   snd (part000_handle demo_api
          (part000_serve demo_api (part000_oauth2Client demo_env)
             [PostDocContent (demo_body\<lparr>tokens := None\<rparr>)])
          (PostDocContent demo_body)) =
     \<lparr>status = 200, body = Json_content ''Hello world!''\<rparr> \<and>
   part001_handle demo_env demo_api (GetAuthUrl None (Some [])) =
     snd (part000_handle demo_api
            (part000_serve demo_api (part000_oauth2Client demo_env) [PostDocContent demo_body])
            (GetAuthUrl None (Some [])))"
proof -
  have h1: "\<not> truthy None" and h2: "\<not> truthy (Some [])"
    by (simp_all add: truthy_def)
  have h3: "\<forall>client creds. generateAuthUrl demo_api (setCredentials client creds) auth_url_options =
                      generateAuthUrl demo_api client auth_url_options"
    by (simp add: demo_api_def setCredentials_def)
  have h4: "body_clientId demo_body = None \<and> body_clientSecret demo_body = None"
    by (simp add: demo_body_def)
  have r: "part001_handle demo_env demo_api (PostDocContent demo_body) =
     \<lparr>status = 200, body = Json_content ''Hello world!''\<rparr>"
    by (rule demo_part001_doc)
  have a: "snd (part000_handle demo_api
          (part000_serve demo_api (part000_oauth2Client demo_env)
             [PostDocContent (demo_body\<lparr>tokens := None\<rparr>)])
          (PostDocContent demo_body)) =
     \<lparr>status = 200, body = Json_content ''Hello world!''\<rparr>"
    using h4 r
      part001_agrees_with_part000 [OF h1 h1, of demo_body demo_env demo_api
         "[PostDocContent (demo_body\<lparr>tokens := None\<rparr>)]"]
    by metis
  have b: "part001_handle demo_env demo_api (GetAuthUrl None (Some [])) =
     snd (part000_handle demo_api
            (part000_serve demo_api (part000_oauth2Client demo_env) [PostDocContent demo_body])
            (GetAuthUrl None (Some [])))"
    using h3
      part001_agrees_with_part000 [OF h1 h2, of demo_body demo_env demo_api
         "[PostDocContent demo_body]"]
    by blast
  from h1 h2 r a b show ?thesis by blast
qed

subsection \<open>The shared client as server state\<close>

text \<open>
  Claim C1. The claim says that handling a request leaves the server's state unchanged.
  In part\_000 a \<open>POST /api/google-doc/content\<close> stores the tokens of its body in the
  shared client, where they stay after the response and through later requests of other
  routes: on the server as started with \<open>demo_env\<close>, handling \<open>demo_body\<close>
  replaces the empty credentials by the user's tokens, and a following
  \<open>GET /api/auth/url\<close> still finds them there.
\<close>

theorem part000_doc_content_keeps_tokens:
  "credentials (part000_oauth2Client demo_env) = Some empty_credentials \<and>
   credentials (fst (part000_handle api (part000_oauth2Client demo_env) (PostDocContent demo_body)))
     = Some demo_tokens \<and>
   fst (part000_handle api (part000_oauth2Client demo_env) (PostDocContent demo_body))
     \<noteq> part000_oauth2Client demo_env \<and>
   credentials
     (part000_serve api (part000_oauth2Client demo_env)
        [PostDocContent demo_body, GetAuthUrl None None])
     = Some demo_tokens"
proof -
  have a: "credentials (part000_oauth2Client demo_env) = Some empty_credentials"
    by (simp add: part000_oauth2Client_def new_OAuth2_def)
  have b: "credentials (fst (part000_handle api (part000_oauth2Client demo_env)
             (PostDocContent demo_body))) = Some demo_tokens"
    by (simp add: part000_handler_states setCredentials_def demo_body_def)
  have c: "credentials
     (part000_serve api (part000_oauth2Client demo_env)
        [PostDocContent demo_body, GetAuthUrl None None])
     = Some demo_tokens"
    by (simp add: part000_handler_states setCredentials_def demo_body_def)
  have "demo_tokens \<noteq> empty_credentials"
    by (simp add: demo_tokens_def empty_credentials_def)
  with a b c show ?thesis by auto
qed

section \<open>Properties of the AI service functions\<close>

subsection \<open>Effects\<close>

lemma and_then_events:
  "fst (and_then m f) = fst m @ (case snd m of Inl err \<Rightarrow> [] | Inr x \<Rightarrow> fst (f x))"
  by (cases m) (auto simp: and_then_def split: sum.splits prod.splits)

lemma and_then_outcome:
  "snd (and_then m f) = (case snd m of Inl err \<Rightarrow> Inl err | Inr x \<Rightarrow> snd (f x))"
  by (cases m) (auto simp: and_then_def split: sum.splits prod.splits)

lemma and_then_Inr:
  "snd (and_then m f) = Inr y \<longleftrightarrow> (\<exists>x. snd m = Inr x \<and> snd (f x) = Inr y)"
  by (simp add: and_then_outcome split: sum.splits)

lemma promise_all_events: "fst (fst (promise_all ms)) = concat (map (fst \<circ> fst) ms)"
  by (induction ms) (auto split: prod.splits sum.splits)

lemma promise_all_Inr:
  "snd (fst (promise_all ms)) = Inr xs \<Longrightarrow> map (snd \<circ> fst) ms = map Inr xs"
proof (induction ms arbitrary: xs)
  case Nil
  then show ?case by simp
next
  case (Cons m ms)
  then show ?case
    by (cases m) (auto split: prod.splits sum.splits if_splits)
qed

lemma promise_all_all_Inr:
  "map (snd \<circ> fst) ms = map Inr xs \<Longrightarrow> snd (fst (promise_all ms)) = Inr xs"
proof (induction ms arbitrary: xs)
  case Nil
  then show ?case by simp
next
  case (Cons m ms)
  then obtain y ys where xs: "xs = y # ys" by (cases xs) auto
  with Cons show ?case
    by (cases m) (auto split: prod.splits sum.splits)
qed

text \<open>
  When one of the computations rejects, the whole rejects with the reason and at the time
  of one of them, and none of them rejects earlier.
\<close>

lemma promise_all_first_rejection:
  "\<exists>m \<in> set ms. isl (snd (fst m)) \<Longrightarrow>
   \<exists>m \<in> set ms. \<exists>err.
      snd (fst m) = Inl err \<and> snd (fst (promise_all ms)) = Inl err \<and>
      snd (promise_all ms) = snd m \<and>
      (\<forall>m' \<in> set ms. isl (snd (fst m')) \<longrightarrow> snd m \<le> snd m')"
proof (induction ms)
  case Nil
  then show ?case by simp
next
  case (Cons m ms)
  obtain e t where m: "m = (e, t)" by (cases m)
  obtain evs' rs t' where p: "promise_all ms = ((evs', rs), t')"
    by (metis surj_pair)
  show ?case
  proof (cases "\<exists>m \<in> set ms. isl (snd (fst m))")
    case False
    then have "map (snd \<circ> fst) ms = map Inr (map (projr \<circ> snd \<circ> fst) ms)"
      by (induction ms) auto
    then have "snd (fst (promise_all ms)) = Inr (map (projr \<circ> snd \<circ> fst) ms)"
      by (rule promise_all_all_Inr)
    with p have rs: "rs = Inr (map (projr \<circ> snd \<circ> fst) ms)" by simp
    from False Cons.prems have "isl (snd e)" by (auto simp: m)
    then obtain err where err: "snd e = Inl err" by (cases "snd e") auto
    have a: "snd (fst m) = Inl err \<and> snd (fst (promise_all (m # ms))) = Inl err \<and>
          snd (promise_all (m # ms)) = snd m"
      by (simp add: m p rs err)
    have b: "\<forall>m' \<in> set (m # ms). isl (snd (fst m')) \<longrightarrow> snd m \<le> snd m'"
      using False by auto
    from a b show ?thesis
      by (metis list.set_intros(1))
  next
    case True
    from Cons.IH [OF True] obtain w err' where w:
      "w \<in> set ms" "snd (fst w) = Inl err'" "snd (fst (promise_all ms)) = Inl err'"
      "snd (promise_all ms) = snd w"
      "\<forall>m' \<in> set ms. isl (snd (fst m')) \<longrightarrow> snd w \<le> snd m'"
      by blast
    from w(3) p have rs: "rs = Inl err'" by simp
    from w(4) p have t': "t' = snd w" by simp
    have wm: "w \<in> set (m # ms)" using w(1) by simp
    show ?thesis
    proof (cases "snd e")
      case (Inr x)
      have a: "snd (fst (promise_all (m # ms))) = Inl err' \<and>
            snd (promise_all (m # ms)) = snd w"
        by (simp add: m p rs Inr t')
      have b: "\<forall>m' \<in> set (m # ms). isl (snd (fst m')) \<longrightarrow> snd w \<le> snd m'"
        using w(5) Inr by (auto simp: m)
      from wm w(2) a b show ?thesis by blast
    next
      case (Inl err)
      show ?thesis
      proof (cases "t' < t")
        case True
        have a: "snd (fst (promise_all (m # ms))) = Inl err' \<and>
              snd (promise_all (m # ms)) = snd w"
          using True by (simp add: m p rs Inl t')
        have b: "\<forall>m' \<in> set (m # ms). isl (snd (fst m')) \<longrightarrow> snd w \<le> snd m'"
          using w(5) True t' by (auto simp: m)
        from wm w(2) a b show ?thesis by blast
      next
        case False
        have a: "snd (fst m) = Inl err \<and> snd (fst (promise_all (m # ms))) = Inl err \<and>
              snd (promise_all (m # ms)) = snd m"
          using False by (simp add: m p rs Inl)
        have b: "\<forall>m' \<in> set (m # ms). isl (snd (fst m')) \<longrightarrow> snd m \<le> snd m'"
          using False w(5) t' by (auto simp: m)
        from a b show ?thesis
          by (metis list.set_intros(1))
      qed
    qed
  qed
qed

subsection \<open>analyzeNotes\<close>

lemma analyzeNotes_result:
  "analysis_contents input = Inr contents \<Longrightarrow>
   generateContent env (analysis_request contents) = Inr resp \<Longrightarrow>
   snd (analyzeNotes env input) = parse_response env resp"
  by (simp add: analyzeNotes_def)

lemma conforms_section:
  "conforms
     (OBJECT [(''heading'', STRING), (''content'', STRING), (''isElaborated'', BOOLEAN),
              (''diagrams'', ARRAY STRING)] [''heading'', ''content''])
     (section_json s) \<longleftrightarrow> heading s \<noteq> None \<and> content s \<noteq> None"
  by (cases "heading s"; cases "content s"; cases "isElaborated s"; cases "diagrams s";
      cases "diagramImages s")
     (auto simp: section_json_def opt_field_def strings_json_def)

lemma conforms_notes:
  "conforms analyze_responseSchema (notes_json n) \<longleftrightarrow>
     title n \<noteq> None \<and>
     (\<exists>ss. sections n = Some ss \<and> (\<forall>s \<in> set ss. heading s \<noteq> None \<and> content s \<noteq> None))"
  by (cases "title n"; cases "sections n")
     (auto simp del: conforms.simps
        simp add: analyze_responseSchema_def notes_json_def opt_field_def conforms_section
          conforms.simps(1) conforms.simps(3)
          conforms.simps(4) [of "[(''title'', STRING), (''sections'', sch)]" for sch])

lemma demo_analysis:
  "snd (analyzeNotes demo_client demo_image_input) = Inr demo_notes"
  by (simp add: analyzeNotes_def analysis_contents_def demo_image_input_def demo_client_def
        demo_generateContent_def analysis_request_def parse_response_def
        text_or_empty_object_def demo_JSON_parse_def demo_text_def)

lemma demo_conforms: "conforms analyze_responseSchema (notes_json demo_notes)"
  by (simp add: conforms_notes demo_notes_def demo_section_def)

lemma silent_analysis:
  "snd (analyzeNotes silent_client demo_image_input) = Inr empty_object"
  by (simp add: analyzeNotes_def analysis_contents_def demo_image_input_def demo_client_def
        silent_client_def parse_response_def text_or_empty_object_def demo_JSON_parse_def)

text \<open>
  Claim C4, as the code has it. \<open>analyzeNotes\<close> returns what \<open>JSON.parse\<close> makes of
  the response text, and of \<open>{}\<close> when the text is empty or missing. A value conforms to
  the response schema exactly when it has a title and a list of sections and every section
  has a heading and a content: \<open>isElaborated\<close> and \<open>diagrams\<close> are not required.
\<close>

theorem analyzeNotes_schema_guarantee:
  "(analysis_contents input = Inr contents \<and>
    generateContent env (analysis_request contents) = Inr resp \<longrightarrow>
      snd (analyzeNotes env input) =
        JSON_parse env (text_or_empty_object (response_text resp))) \<and>
   (conforms analyze_responseSchema (notes_json n) \<longleftrightarrow>
      title n \<noteq> None \<and>
      (\<exists>ss. sections n = Some ss \<and>
            (\<forall>s \<in> set ss. heading s \<noteq> None \<and> content s \<noteq> None)))"
  by (simp add: analyzeNotes_result parse_response_def conforms_notes)


theorem analyzeNotes_schema_guarantee_witness:
  "conforms analyze_responseSchema (notes_json demo_notes) \<and>
   title demo_notes = Some ''Cell  biology'' \<and>
   heading demo_section = Some ''Mitosis'' \<and>
   \<not> conforms analyze_responseSchema (notes_json empty_object)"
proof -
  have a: "title demo_notes \<noteq> None \<and>
      (\<exists>ss. sections demo_notes = Some ss \<and>
            (\<forall>s \<in> set ss. heading s \<noteq> None \<and> content s \<noteq> None))"
    by (simp add: demo_notes_def demo_section_def)
  have b: "conforms analyze_responseSchema (notes_json demo_notes)"
    using a analyzeNotes_schema_guarantee [where n = demo_notes] by blast
  have c: "\<not> conforms analyze_responseSchema (notes_json empty_object)"
    using analyzeNotes_schema_guarantee [where n = empty_object]
    by (simp add: empty_object_def)
  from b c show ?thesis
    by (simp add: demo_notes_def demo_section_def)
qed


text \<open>
  Claim C4, as stated, fails: the value that \<open>analyzeNotes\<close> returns for
  \<open>demo_text\<close> conforms to the response schema and its section has no
  \<open>isElaborated\<close>; and for a response without text the returned value has neither a
  title nor sections.
\<close>

theorem analyzeNotes_section_without_flag:
  "snd (analyzeNotes demo_client demo_image_input) = Inr demo_notes \<and>
   conforms analyze_responseSchema (notes_json demo_notes) \<and>
   sections demo_notes = Some [demo_section] \<and>
   isElaborated demo_section = None \<and>
   snd (analyzeNotes silent_client demo_image_input) = Inr empty_object \<and>
   title empty_object = None \<and> sections empty_object = None"
  using demo_analysis demo_conforms silent_analysis
  by (simp add: demo_notes_def demo_section_def empty_object_def)

text \<open>
  Claim C10. Once the service has answered, a response whose text is empty or missing
  makes \<open>analyzeNotes\<close> return the empty object \<open>{}\<close>, which has neither a title nor
  sections; a non-empty text is handed to \<open>JSON.parse\<close>, and \<open>analyzeNotes\<close> throws
  only if that text fails to parse. (\<open>JSON.parse\<close> is taken to read \<open>{}\<close> as the
  empty object.)
\<close>

theorem analyzeNotes_empty_text:
  assumes "analysis_contents input = Inr contents"
    and "generateContent env (analysis_request contents) = Inr resp"
    and "JSON_parse env ''{}'' = Inr empty_object"
  shows "(\<not> truthy (response_text resp) \<longrightarrow> snd (analyzeNotes env input) = Inr empty_object) \<and>
         title empty_object = None \<and> sections empty_object = None \<and>
         (truthy (response_text resp) \<longrightarrow>
            (\<exists>t. response_text resp = Some t \<and> t \<noteq> [] \<and>
                 snd (analyzeNotes env input) = JSON_parse env t)) \<and>
         (\<forall>err. snd (analyzeNotes env input) = Inl err \<longrightarrow>
            (\<exists>t. response_text resp = Some t \<and> t \<noteq> [] \<and> JSON_parse env t = Inl err))"
proof -
  have r: "snd (analyzeNotes env input) =
           JSON_parse env (text_or_empty_object (response_text resp))"
    using assms(1,2) by (simp add: analyzeNotes_result parse_response_def)
  show ?thesis
    using assms(3)
    by (cases "response_text resp")
       (auto simp: r truthy_def text_or_empty_object_def empty_object_def)
qed


theorem analyzeNotes_empty_text_witness:
  "analysis_contents demo_image_input = Inr demo_contents \<and>
   generateContent silent_client (analysis_request demo_contents) =
     Inr \<lparr>response_text = None, candidate_parts = None\<rparr> \<and>
   JSON_parse silent_client ''{}'' = Inr empty_object \<and>
   snd (analyzeNotes silent_client demo_image_input) = Inr empty_object \<and>
   generateContent garbled_client (analysis_request demo_contents) =
     Inr \<lparr>response_text = Some ''Sorry, no.'', candidate_parts = None\<rparr> \<and>
   snd (analyzeNotes garbled_client demo_image_input) = JSON_parse garbled_client ''Sorry, no.''"
proof -
  have c: "analysis_contents demo_image_input = Inr demo_contents"
    by (simp add: analysis_contents_def demo_image_input_def demo_contents_def
          split_comma_second_def)
  have g: "generateContent silent_client (analysis_request demo_contents) =
     Inr \<lparr>response_text = None, candidate_parts = None\<rparr>"
    by (simp add: silent_client_def)
  have p: "JSON_parse silent_client ''{}'' = Inr empty_object"
    by (simp add: silent_client_def demo_client_def demo_JSON_parse_def)
  have g': "generateContent garbled_client (analysis_request demo_contents) =
     Inr \<lparr>response_text = Some ''Sorry, no.'', candidate_parts = None\<rparr>"
    by (simp add: garbled_client_def)
  have p': "JSON_parse garbled_client ''{}'' = Inr empty_object"
    by (simp add: garbled_client_def demo_client_def demo_JSON_parse_def)
  have t0: "\<not> truthy (response_text \<lparr>response_text = None, candidate_parts = None\<rparr>)"
    by (simp add: truthy_def)
  have a: "snd (analyzeNotes silent_client demo_image_input) = Inr empty_object"
    using analyzeNotes_empty_text [OF c g p] t0 by blast
  have t1: "truthy (response_text \<lparr>response_text = Some ''Sorry, no.'', candidate_parts = None\<rparr>)"
    by (simp add: truthy_def)
  from analyzeNotes_empty_text [OF c g' p'] t1 obtain t where
    "response_text \<lparr>response_text = Some ''Sorry, no.'', candidate_parts = None\<rparr> = Some t"
    "snd (analyzeNotes garbled_client demo_image_input) = JSON_parse garbled_client t"
    by blast
  then have b: "snd (analyzeNotes garbled_client demo_image_input) =
           JSON_parse garbled_client ''Sorry, no.''"
    by simp
  from c g p a g' b show ?thesis by blast
qed


section \<open>Properties of the client\<close>

subsection \<open>Diagram images\<close>

lemma generateDiagramImage_Inr:
  "snd (generateDiagramImage env d) = Inr img \<Longrightarrow> generated_image env d = img"
  by (auto simp: generateDiagramImage_def generated_image_def split: sum.splits)

lemma image_promises_outcomes:
  "map (snd \<circ> fst) (image_promises env ds) = map (\<lambda>d. snd (generateDiagramImage env d)) ds"
  by (simp add: image_promises_def comp_def)

lemma image_promises_events:
  "concat (map (fst \<circ> fst) (image_promises env ds)) =
     map (\<lambda>d. GenerateContent (image_request d)) ds"
  by (induction ds) (simp_all add: image_promises_def generateDiagramImage_def)

lemma generated_images:
  "map (snd \<circ> fst) (image_promises env ds) = map Inr images \<Longrightarrow>
   images = map (generated_image env) ds"
  unfolding image_promises_outcomes
proof (induction ds arbitrary: images)
  case Nil
  then show ?case by simp
next
  case (Cons d ds)
  then obtain i is' where "images = i # is'" by (cases images) auto
  with Cons show ?case
    by (auto dest: generateDiagramImage_Inr)
qed

text \<open>How a section's computation settles, and the events it causes.\<close>

lemma section_with_images_outcome:
  "snd (fst (section_with_images env s)) =
     (case diagrams s of
        None \<Rightarrow> Inr s
      | Some ds \<Rightarrow>
          if ds \<noteq> [] then
            (case snd (fst (promise_all (image_promises env ds))) of
               Inl err \<Rightarrow> Inl err
             | Inr images \<Rightarrow> Inr (s\<lparr>diagramImages := Some (non_null images)\<rparr>))
          else Inr s)"
  by (cases "diagrams s")
     (auto simp: section_with_images_def resolve_def and_then_outcome
        split: prod.splits sum.splits)

lemma section_with_images_time:
  "snd (section_with_images env s) =
     (case diagrams s of
        None \<Rightarrow> 0
      | Some ds \<Rightarrow> if ds \<noteq> [] then snd (promise_all (image_promises env ds)) else 0)"
  by (cases "diagrams s") (auto simp: section_with_images_def split: prod.splits)

lemma section_with_images_Inr:
  assumes "snd (fst (section_with_images env s)) = Inr s'"
  shows "s' = (case diagrams s of
                 None \<Rightarrow> s
               | Some ds \<Rightarrow>
                   if ds \<noteq> [] then s\<lparr>diagramImages := Some (non_null (map (generated_image env) ds))\<rparr>
                   else s)"
proof (cases "diagrams s")
  case None
  with assms show ?thesis by (simp add: section_with_images_outcome)
next
  case (Some ds)
  show ?thesis
  proof (cases "ds = []")
    case True
    with Some assms show ?thesis by (simp add: section_with_images_outcome)
  next
    case False
    from assms Some False obtain images where
      all: "snd (fst (promise_all (image_promises env ds))) = Inr images" and
      s': "s' = s\<lparr>diagramImages := Some (non_null images)\<rparr>"
      by (cases "snd (fst (promise_all (image_promises env ds)))")
         (auto simp: section_with_images_outcome)
    from all have "images = map (generated_image env) ds"
      by (intro generated_images promise_all_Inr)
    with s' Some False show ?thesis by simp
  qed
qed

lemma non_null_filter: "map Some (non_null images) = filter (\<lambda>img. img \<noteq> None) images"
  by (induction images) (auto simp: non_null_def)

lemma non_null_all: "None \<notin> set images \<Longrightarrow> map Some (non_null images) = images"
proof (induction images)
  case Nil
  show ?case by (simp add: non_null_def)
next
  case (Cons a images)
  then show ?case by (cases a) (auto simp: non_null_def)
qed

text \<open>
  Claim C2, as the code has it. In a result that \<open>processNotes\<close> shows, a section with
  a non-empty \<open>diagrams\<close> list has as \<open>diagramImages\<close> the images generated from its
  descriptions in their order, with the \<open>null\<close> results left out; a section without
  diagrams is unchanged. So the i-th image belongs to the i-th description when no
  generation came back \<open>null\<close>.
\<close>

theorem diagram_images_of_result:
  assumes "snd (with_images env result) = Inr shown"
  shows "\<exists>ss ss'. sections result = Some ss \<and> sections shown = Some ss' \<and>
           length ss' = length ss \<and>
           (\<forall>i < length ss.
              ss' ! i =
                (case diagrams (ss ! i) of
                   None \<Rightarrow> ss ! i
                 | Some ds \<Rightarrow>
                     if ds \<noteq> [] then
                       (ss ! i)\<lparr>diagramImages := Some (non_null (map (generated_image env) ds))\<rparr>
                     else ss ! i)) \<and>
           (\<forall>images. map Some (non_null images) = filter (\<lambda>img. img \<noteq> None) images \<and>
                     (None \<notin> set images \<longrightarrow> map Some (non_null images) = images))"
proof -
  from assms obtain ss where ss: "sections result = Some ss"
    by (cases "sections result") (auto simp: with_images_def throw_def)
  from assms ss obtain ss' where
    all: "snd (fst (promise_all (map (section_with_images env) ss))) = Inr ss'" and
    shown: "shown = result\<lparr>sections := Some ss'\<rparr>"
    by (auto simp: with_images_def and_then_Inr resolve_def)
  from all have m: "map (snd \<circ> fst) (map (section_with_images env) ss) = map Inr ss'"
    by (rule promise_all_Inr)
  then have len: "length ss' = length ss"
    by (metis length_map)
  have each: "ss' ! i =
                (case diagrams (ss ! i) of
                   None \<Rightarrow> ss ! i
                 | Some ds \<Rightarrow>
                     if ds \<noteq> [] then
                       (ss ! i)\<lparr>diagramImages := Some (non_null (map (generated_image env) ds))\<rparr>
                     else ss ! i)" if "i < length ss" for i
  proof -
    from m have "map (\<lambda>s. snd (fst (section_with_images env s))) ss = map Inr ss'"
      by (simp add: comp_def)
    with that len have "snd (fst (section_with_images env (ss ! i))) = Inr (ss' ! i)"
      by (metis length_map nth_map)
    then show ?thesis by (rule section_with_images_Inr)
  qed
  have nn: "\<forall>images. map Some (non_null images) = filter (\<lambda>img. img \<noteq> None) images \<and>
                     (None \<notin> set images \<longrightarrow> map Some (non_null images) = images)"
    using non_null_filter non_null_all by blast
  have "sections shown = Some ss'"
    using shown by simp
  with ss len each nn show ?thesis
    by blast
qed

lemma demo_images:
  "snd (generateDiagramImage demo_client ''spindle'') = Inr None"
  "snd (generateDiagramImage demo_client ''membrane'') = Inr (Some demo_image)"
  by (simp_all add: generateDiagramImage_def demo_client_def demo_generateContent_def
        image_request_def image_of_response_def demo_image_def)

lemma demo_section_images:
  "snd (fst (section_with_images demo_client demo_section)) =
     Inr (demo_section\<lparr>diagramImages := Some [demo_image]\<rparr>)"
proof -
  have "map (snd \<circ> fst) (image_promises demo_client [''spindle'', ''membrane'']) =
        map Inr [None, Some demo_image]"
    by (simp add: image_promises_outcomes demo_images)
  then have "snd (fst (promise_all (image_promises demo_client [''spindle'', ''membrane'']))) =
        Inr [None, Some demo_image]"
    by (rule promise_all_all_Inr)
  then show ?thesis
    by (simp add: section_with_images_outcome demo_section_def non_null_def)
qed

lemma demo_with_images: "snd (with_images demo_client demo_notes) = Inr demo_shown"
proof -
  have "map (snd \<circ> fst) (map (section_with_images demo_client) [demo_section]) =
        map Inr [demo_section\<lparr>diagramImages := Some [demo_image]\<rparr>]"
    by (simp add: demo_section_images)
  then have "snd (fst (promise_all (map (section_with_images demo_client) [demo_section]))) =
        Inr [demo_section\<lparr>diagramImages := Some [demo_image]\<rparr>]"
    by (rule promise_all_all_Inr)
  then show ?thesis
    by (simp add: with_images_def demo_notes_def and_then_outcome resolve_def demo_shown_def
          del: promise_all.simps)
qed

lemma demo_read_analysis:
  "snd (analyze_input_of demo_client (demo_state\<lparr>isProcessing := True, error := None\<rparr>)) =
     Inr demo_notes"
  by (simp add: analyze_input_of_def demo_state_def and_then_outcome read_files_def
        analyzeNotes_def analysis_contents_def demo_client_def
        demo_generateContent_def analysis_request_def parse_response_def
        text_or_empty_object_def demo_JSON_parse_def demo_text_def)

lemma demo_try_body:
  "snd (try_body demo_client (demo_state\<lparr>isProcessing := True, error := None\<rparr>)) =
     Inr demo_shown"
  by (simp add: try_body_def and_then_outcome demo_read_analysis demo_with_images)

lemma processNotes_state:
  "fst (processNotes env st) =
     (case snd (try_body env (st\<lparr>isProcessing := True, error := None\<rparr>)) of
        Inr result \<Rightarrow> st\<lparr>isProcessing := False, error := None, processedData := Some result\<rparr>
      | Inl err \<Rightarrow> st\<lparr>isProcessing := False, error := Some (error_text err)\<rparr>)"
  by (cases "try_body env (st\<lparr>isProcessing := True, error := None\<rparr>)")
     (auto simp: processNotes_def Let_def split: sum.splits)

theorem diagram_images_of_result_witness:
  "snd (with_images demo_client demo_notes) = Inr demo_shown \<and>
   sections demo_shown =
     Some [demo_section\<lparr>diagramImages :=
             Some (non_null (map (generated_image demo_client) [''spindle'', ''membrane'']))\<rparr>]"
proof -
  have h: "snd (with_images demo_client demo_notes) = Inr demo_shown"
    by (rule demo_with_images)
  from diagram_images_of_result [OF h] obtain ss ss' where
    ss: "sections demo_notes = Some ss" and ss': "sections demo_shown = Some ss'" and
    len: "length ss' = length ss" and
    each: "\<forall>i < length ss.
              ss' ! i =
                (case diagrams (ss ! i) of
                   None \<Rightarrow> ss ! i
                 | Some ds \<Rightarrow>
                     if ds \<noteq> [] then
                       (ss ! i)\<lparr>diagramImages := Some (non_null (map (generated_image demo_client) ds))\<rparr>
                     else ss ! i)"
    by blast
  from ss have ss_eq: "ss = [demo_section]"
    by (simp add: demo_notes_def)
  with len obtain s' where s': "ss' = [s']"
    by (cases ss') auto
  from each ss_eq s' have
    "s' = demo_section\<lparr>diagramImages :=
             Some (non_null (map (generated_image demo_client) [''spindle'', ''membrane'']))\<rparr>"
    by (simp add: demo_section_def)
  with h ss' s' show ?thesis by simp
qed


text \<open>
  Claim C2, as stated, fails: the service draws nothing for the first description of
  \<open>demo_section\<close> and an image for the second; the result shown has that image at
  index 0, where the claim puts the image of the first description.
\<close>

theorem diagram_images_shifted:
  "processedData (fst (processNotes demo_client demo_state)) = Some demo_shown \<and>
   sections demo_shown = Some [demo_section\<lparr>diagramImages := Some [demo_image]\<rparr>] \<and>
   diagrams demo_section = Some [''spindle'', ''membrane''] \<and>
   snd (generateDiagramImage demo_client ''spindle'') = Inr None \<and>
   snd (generateDiagramImage demo_client ''membrane'') = Inr (Some demo_image)"
  by (simp add: processNotes_state demo_try_body demo_images demo_shown_def demo_section_def)


subsection \<open>The events of a run\<close>

lemma stage_analysis [simp]: "stage (GenerateContent (analysis_request contents)) = 1"
  by (simp add: stage_def analysis_request_def)

lemma stage_image [simp]: "stage (GenerateContent (image_request d)) = 2"
  by (simp add: stage_def image_request_def)

lemma stage_other [simp]:
  "stage (ReadFile f) = 0" "stage (FetchGoogleDoc doc_id toks) = 0" "stage (SetProcessedData r) = 3"
  by (simp_all add: stage_def)

lemma analyzeNotes_events:
  "fst (analyzeNotes env input) =
     (case analysis_contents input of
        Inl err \<Rightarrow> []
      | Inr contents \<Rightarrow> [GenerateContent (analysis_request contents)])"
  by (simp add: analyzeNotes_def split: sum.splits)

lemma analyzeNotes_throws_early:
  "analysis_contents input = Inl err \<Longrightarrow> snd (analyzeNotes env input) = Inl err"
  by (simp add: analyzeNotes_def)

lemma generateDiagramImage_events:
  "fst (generateDiagramImage env d) = [GenerateContent (image_request d)]"
  by (simp add: generateDiagramImage_def)

lemma concat_singletons: "concat (map (\<lambda>x. [f x]) xs) = map f xs"
  by (induction xs) simp_all

lemma section_with_images_events:
  "fst (fst (section_with_images env s)) =
     map (\<lambda>d. GenerateContent (image_request d)) (section_descriptions s)"
proof (cases "diagrams s")
  case None
  then show ?thesis
    by (simp add: section_with_images_def resolve_def section_descriptions_def)
next
  case (Some ds)
  obtain m t where p: "promise_all (image_promises env ds) = (m, t)"
    by (cases "promise_all (image_promises env ds)")
  have "fst m = map (\<lambda>d. GenerateContent (image_request d)) ds"
    using promise_all_events [of "image_promises env ds"]
    by (simp add: p image_promises_events)
  with Some p show ?thesis
    by (cases "snd m")
       (simp_all add: section_with_images_def resolve_def section_descriptions_def
          and_then_events)
qed

lemma with_images_events:
  "fst (with_images env result) =
     (case sections result of None \<Rightarrow> [] | Some ss \<Rightarrow> image_calls ss)"
proof (cases "sections result")
  case None
  then show ?thesis by (simp add: with_images_def throw_def)
next
  case (Some ss)
  have "concat (map (fst \<circ> fst \<circ> section_with_images env) ss) = image_calls ss"
    by (induction ss) (simp_all add: image_calls_def section_with_images_events)
  with Some show ?thesis
    by (simp add: with_images_def resolve_def and_then_events promise_all_events
          split: sum.splits)
qed

lemma analyze_input_of_events:
  "fst (analyze_input_of env st) =
     (if files st \<noteq> [] then
        map ReadFile (files st) @
        fst (analyzeNotes env (ImageInput (map (readAsDataURL env) (files st))))
      else
        (case (docUrl st \<noteq> [], googleTokens st) of
           (True, Some toks) \<Rightarrow>
             (case docId_match (docUrl st) of
                None \<Rightarrow> []
              | Some doc_id \<Rightarrow>
                  FetchGoogleDoc doc_id toks #
                  (case fetch_content env doc_id toks of
                     Inl err \<Rightarrow> []
                   | Inr doc_text \<Rightarrow> fst (analyzeNotes env (TextInput doc_text))))
         | _ \<Rightarrow> []))"
  by (simp add: analyze_input_of_def and_then_events read_files_def fetch_google_doc_def
        throw_def split: option.splits bool.splits sum.splits)

text \<open>The shape of the events up to the analysis: input events, then at most the call.\<close>

lemma analyzeNotes_shape:
  "\<exists>calls. fst (analyzeNotes env input) = calls \<and> (\<forall>ev \<in> set calls. stage ev = 1) \<and>
           length calls \<le> 1 \<and>
           (calls = [] \<longrightarrow> (\<exists>err. snd (analyzeNotes env input) = Inl err))"
  by (cases "analysis_contents input")
     (simp_all add: analyzeNotes_events analyzeNotes_throws_early)

lemma analyze_input_of_shape:
  "\<exists>inputs calls.
     fst (analyze_input_of env st) = inputs @ calls \<and>
     (\<forall>ev \<in> set inputs. stage ev = 0) \<and> length inputs \<le> max 1 (length (files st)) \<and>
     (\<forall>ev \<in> set calls. stage ev = 1) \<and> length calls \<le> 1 \<and>
     (calls = [] \<longrightarrow> (\<exists>err. snd (analyze_input_of env st) = Inl err))"
proof (cases "files st \<noteq> []")
  case True
  obtain calls where c:
    "fst (analyzeNotes env (ImageInput (map (readAsDataURL env) (files st)))) = calls"
    "\<forall>ev \<in> set calls. stage ev = 1" "length calls \<le> 1"
    "calls = [] \<longrightarrow>
       (\<exists>err. snd (analyzeNotes env (ImageInput (map (readAsDataURL env) (files st)))) = Inl err)"
    using analyzeNotes_shape by blast
  have o: "snd (analyze_input_of env st) =
           snd (analyzeNotes env (ImageInput (map (readAsDataURL env) (files st))))"
    using True by (simp add: analyze_input_of_def and_then_outcome read_files_def)
  have "fst (analyze_input_of env st) = map ReadFile (files st) @ calls"
    using True c(1) by (simp add: analyze_input_of_events)
  moreover have "\<forall>ev \<in> set (map ReadFile (files st)). stage ev = 0"
    by simp
  moreover have "length (map ReadFile (files st)) \<le> max 1 (length (files st))"
    by simp
  ultimately show ?thesis
    using c(2,3,4) o by metis
next
  case False
  note nofiles = this
  show ?thesis
  proof (cases "docUrl st \<noteq> [] \<and> googleTokens st \<noteq> None \<and> docId_match (docUrl st) \<noteq> None")
    case False
    then have "fst (analyze_input_of env st) = [] @ []"
      and "\<exists>err. snd (analyze_input_of env st) = Inl err"
      using nofiles
      by (auto simp: analyze_input_of_def throw_def split: option.splits bool.splits)
    then show ?thesis
      by (metis empty_iff list.set(1) list.size(3) zero_le)
  next
    case True
    then obtain toks doc_id where t: "googleTokens st = Some toks"
      "docId_match (docUrl st) = Some doc_id" "docUrl st \<noteq> []"
      by auto
    show ?thesis
    proof (cases "fetch_content env doc_id toks")
      case (Inl err)
      with t nofiles have "fst (analyze_input_of env st) = [FetchGoogleDoc doc_id toks] @ []"
        and "snd (analyze_input_of env st) = Inl err"
        by (simp_all add: analyze_input_of_def and_then_def fetch_google_doc_def)
      moreover have "\<forall>ev \<in> set [FetchGoogleDoc doc_id toks]. stage ev = 0"
        by simp
      moreover have "length [FetchGoogleDoc doc_id toks] \<le> max 1 (length (files st))"
        by simp
      ultimately show ?thesis
        by (metis empty_iff list.set(1) list.size(3) zero_le)
    next
      case (Inr doc_text)
      obtain calls where c:
        "fst (analyzeNotes env (TextInput doc_text)) = calls"
        "\<forall>ev \<in> set calls. stage ev = 1" "length calls \<le> 1"
        "calls = [] \<longrightarrow> (\<exists>err. snd (analyzeNotes env (TextInput doc_text)) = Inl err)"
        using analyzeNotes_shape by blast
      from Inr t nofiles have
        "fst (analyze_input_of env st) = [FetchGoogleDoc doc_id toks] @ calls"
        and "snd (analyze_input_of env st) = snd (analyzeNotes env (TextInput doc_text))"
        by (simp_all add: analyze_input_of_def and_then_events and_then_outcome
              fetch_google_doc_def c(1))
      moreover have "\<forall>ev \<in> set [FetchGoogleDoc doc_id toks]. stage ev = 0"
        by simp
      moreover have "length [FetchGoogleDoc doc_id toks] \<le> max 1 (length (files st))"
        by simp
      ultimately show ?thesis
        using c(2,3,4) by metis
    qed
  qed
qed

lemma analyze_input_of_state:
  "analyze_input_of env (st\<lparr>isProcessing := p, error := e\<rparr>) = analyze_input_of env st"
  by (simp add: analyze_input_of_def split: bool.splits option.splits)

lemma try_body_state:
  "try_body env (st\<lparr>isProcessing := p, error := e\<rparr>) = try_body env st"
  by (simp add: try_body_def analyze_input_of_state)

lemma try_body_events:
  "fst (try_body env st) =
     fst (analyze_input_of env st) @
     (case snd (analyze_input_of env st) of
        Inl err \<Rightarrow> []
      | Inr result \<Rightarrow> fst (with_images env result))"
  by (simp add: try_body_def and_then_events)

lemma try_body_outcome:
  "snd (try_body env st) =
     (case snd (analyze_input_of env st) of
        Inl err \<Rightarrow> Inl err
      | Inr result \<Rightarrow> snd (with_images env result))"
  by (simp add: try_body_def and_then_outcome)

lemma processNotes_events:
  "snd (processNotes env st) =
     fst (try_body env st) @
     (case snd (try_body env st) of Inl err \<Rightarrow> [] | Inr shown \<Rightarrow> [SetProcessedData shown])"
  by (cases "try_body env st")
     (auto simp: processNotes_def Let_def try_body_state split: sum.splits)

lemma processNotes_final_state:
  "fst (processNotes env st) =
     (case snd (try_body env st) of
        Inr shown \<Rightarrow> st\<lparr>isProcessing := False, error := None, processedData := Some shown\<rparr>
      | Inl err \<Rightarrow> st\<lparr>isProcessing := False, error := Some (error_text err)\<rparr>)"
  by (cases "try_body env st")
     (auto simp: processNotes_def Let_def try_body_state split: sum.splits)

lemma image_calls_stage: "\<forall>ev \<in> set (image_calls ss). stage ev = 2"
  by (auto simp: image_calls_def)

lemma with_images_stage: "\<forall>ev \<in> set (fst (with_images env result)). stage ev = 2"
proof (cases "sections result")
  case None
  then show ?thesis by (simp add: with_images_events)
next
  case (Some ss)
  then show ?thesis using image_calls_stage [of ss] by (simp add: with_images_events)
qed

lemma sorted_one_stage: "\<forall>ev \<in> set evs. stage ev = k \<Longrightarrow> sorted (map stage evs)"
  by (induction evs) simp_all

lemma count_stage_all: "\<forall>ev \<in> set evs. stage ev = k \<Longrightarrow> count_stage k evs = length evs"
  by (induction evs) (simp_all add: count_stage_def)

lemma count_stage_none:
  "\<forall>ev \<in> set evs. stage ev = j \<Longrightarrow> j \<noteq> k \<Longrightarrow> count_stage k evs = 0"
  by (induction evs) (simp_all add: count_stage_def)

lemma count_stage_append: "count_stage k (xs @ ys) = count_stage k xs + count_stage k ys"
  by (simp add: count_stage_def)

lemma staged:
  assumes "\<forall>ev \<in> set a. stage ev = 0" and "\<forall>ev \<in> set b. stage ev = 1"
    and "\<forall>ev \<in> set c. stage ev = 2" and "\<forall>ev \<in> set d. stage ev = 3"
  shows "sorted (map stage (a @ b @ c @ d))"
    and "count_stage 0 (a @ b @ c @ d) = length a"
    and "count_stage 1 (a @ b @ c @ d) = length b"
    and "count_stage 2 (a @ b @ c @ d) = length c"
    and "count_stage 3 (a @ b @ c @ d) = length d"
proof -
  show "sorted (map stage (a @ b @ c @ d))"
    using assms sorted_one_stage [OF assms(1)] sorted_one_stage [OF assms(2)]
      sorted_one_stage [OF assms(3)] sorted_one_stage [OF assms(4)]
    by (auto simp: sorted_append)
  show "count_stage 0 (a @ b @ c @ d) = length a"
    using count_stage_all [OF assms(1)] count_stage_none [OF assms(2), of 0]
      count_stage_none [OF assms(3), of 0] count_stage_none [OF assms(4), of 0]
    by (simp add: count_stage_append)
  show "count_stage 1 (a @ b @ c @ d) = length b"
    using count_stage_all [OF assms(2)] count_stage_none [OF assms(1), of 1]
      count_stage_none [OF assms(3), of 1] count_stage_none [OF assms(4), of 1]
    by (simp add: count_stage_append)
  show "count_stage 2 (a @ b @ c @ d) = length c"
    using count_stage_all [OF assms(3)] count_stage_none [OF assms(1), of 2]
      count_stage_none [OF assms(2), of 2] count_stage_none [OF assms(4), of 2]
    by (simp add: count_stage_append)
  show "count_stage 3 (a @ b @ c @ d) = length d"
    using count_stage_all [OF assms(4)] count_stage_none [OF assms(1), of 3]
      count_stage_none [OF assms(2), of 3] count_stage_none [OF assms(3), of 3]
    by (simp add: count_stage_append)
qed

lemma processNotes_shape: "\<exists>a b c d. staged_run env st a b c d"
proof -
  obtain a b where ab:
    "fst (analyze_input_of env st) = a @ b"
    "\<forall>ev \<in> set a. stage ev = 0" "length a \<le> max 1 (length (files st))"
    "\<forall>ev \<in> set b. stage ev = 1" "length b \<le> 1"
    "b = [] \<longrightarrow> (\<exists>err. snd (analyze_input_of env st) = Inl err)"
    using analyze_input_of_shape [of env st] by (elim exE conjE) blast
  show ?thesis
  proof (cases "snd (analyze_input_of env st)")
    case (Inl err)
    then have tr: "snd (processNotes env st) = a @ b @ [] @ []"
      and th: "\<exists>err. snd (try_body env st) = Inl err"
      by (simp_all add: processNotes_events try_body_events try_body_outcome ab(1))
    have "staged_run env st a b [] []"
      unfolding staged_run_def using tr th ab(2-5) by simp
    then show ?thesis by blast
  next
    case (Inr result)
    with ab(5,6) have b1: "length b = 1"
      by (cases b) auto
    define c where "c = fst (with_images env result)"
    define d where "d = (case snd (with_images env result) of
                Inl err \<Rightarrow> [] | Inr shown \<Rightarrow> [SetProcessedData shown])"
    have tr: "snd (processNotes env st) = a @ b @ c @ d"
      using Inr by (simp add: processNotes_events try_body_events try_body_outcome ab(1)
                      c_def d_def)
    have c2: "\<forall>ev \<in> set c. stage ev = 2"
      unfolding c_def by (rule with_images_stage)
    have d3: "\<forall>ev \<in> set d. stage ev = 3"
      unfolding d_def by (cases "snd (with_images env result)") simp_all
    have dl: "length d \<le> 1"
      unfolding d_def by (cases "snd (with_images env result)") simp_all
    have dd: "d = [] \<longleftrightarrow> (\<exists>err. snd (try_body env st) = Inl err)"
      unfolding d_def using Inr
      by (cases "snd (with_images env result)") (simp_all add: try_body_outcome)
    have an: "\<exists>result. snd (analyze_input_of env st) = Inr result"
      using Inr by blast
    have "staged_run env st a b c d"
      unfolding staged_run_def
      using tr ab(2) ab(4) c2 d3 ab(3) ab(5) dl b1 an dd by blast
    then show ?thesis by blast
  qed
qed

lemma staged_run_counts:
  assumes "staged_run env st a b c d"
  shows "sorted (map stage (snd (processNotes env st)))"
    and "count_stage 0 (snd (processNotes env st)) = length a"
    and "count_stage 1 (snd (processNotes env st)) = length b"
    and "count_stage 2 (snd (processNotes env st)) = length c"
    and "count_stage 3 (snd (processNotes env st)) = length d"
proof -
  from assms have tr: "snd (processNotes env st) = a @ b @ c @ d"
    and s: "\<forall>ev \<in> set a. stage ev = 0" "\<forall>ev \<in> set b. stage ev = 1"
      "\<forall>ev \<in> set c. stage ev = 2" "\<forall>ev \<in> set d. stage ev = 3"
    unfolding staged_run_def by blast+
  show "sorted (map stage (snd (processNotes env st)))"
    unfolding tr by (rule staged(1) [OF s])
  show "count_stage 0 (snd (processNotes env st)) = length a"
    unfolding tr by (rule staged(2) [OF s])
  show "count_stage 1 (snd (processNotes env st)) = length b"
    unfolding tr by (rule staged(3) [OF s])
  show "count_stage 2 (snd (processNotes env st)) = length c"
    unfolding tr by (rule staged(4) [OF s])
  show "count_stage 3 (snd (processNotes env st)) = length d"
    unfolding tr by (rule staged(5) [OF s])
qed

lemma processNotes_order_general:
  shows "sorted (map stage (snd (processNotes env st)))"
    and "count_stage 0 (snd (processNotes env st)) \<le> max 1 (length (files st))"
    and "count_stage 1 (snd (processNotes env st)) \<le> 1"
    and "count_stage 3 (snd (processNotes env st)) \<le> 1"
    and "0 < count_stage 2 (snd (processNotes env st)) + count_stage 3 (snd (processNotes env st)) \<longrightarrow>
      count_stage 1 (snd (processNotes env st)) = 1 \<and>
      (\<exists>result. snd (analyze_input_of env st) = Inr result)"
    and "(\<exists>err. snd (try_body env st) = Inl err) \<longrightarrow> count_stage 3 (snd (processNotes env st)) = 0"
proof -
  obtain a b c d where r: "staged_run env st a b c d"
    using processNotes_shape [of env st] by (elim exE)
  note n = staged_run_counts [OF r]
  from r have
    l: "length a \<le> max 1 (length (files st))" "length b \<le> 1" "length d \<le> 1" and
    g: "c \<noteq> [] \<or> d \<noteq> [] \<longrightarrow>
        length b = 1 \<and> (\<exists>result. snd (analyze_input_of env st) = Inr result)" and
    e: "d = [] \<longleftrightarrow> (\<exists>err. snd (try_body env st) = Inl err)"
    unfolding staged_run_def by blast+
  show "sorted (map stage (snd (processNotes env st)))"
    by (rule n(1))
  show "count_stage 0 (snd (processNotes env st)) \<le> max 1 (length (files st))"
    unfolding n(2) by (rule l(1))
  show "count_stage 1 (snd (processNotes env st)) \<le> 1"
    unfolding n(3) by (rule l(2))
  show "count_stage 3 (snd (processNotes env st)) \<le> 1"
    unfolding n(5) by (rule l(3))
  show "0 < count_stage 2 (snd (processNotes env st)) + count_stage 3 (snd (processNotes env st)) \<longrightarrow>
      count_stage 1 (snd (processNotes env st)) = 1 \<and>
      (\<exists>result. snd (analyze_input_of env st) = Inr result)"
    unfolding n(3,4,5) using g by auto
  show "(\<exists>err. snd (try_body env st) = Inl err) \<longrightarrow> count_stage 3 (snd (processNotes env st)) = 0"
    unfolding n(5) using e by simp
qed

lemma image_call_count:
  "count_stage 2 (snd (processNotes env st)) \<le> described (snd (analyze_input_of env st))"
proof -
  obtain a b where ab:
    "fst (analyze_input_of env st) = a @ b"
    "\<forall>ev \<in> set a. stage ev = 0" "\<forall>ev \<in> set b. stage ev = 1"
    using analyze_input_of_shape [of env st] by (elim exE conjE) blast
  have z: "count_stage 2 (fst (analyze_input_of env st)) = 0"
    using count_stage_none [OF ab(2), of 2] count_stage_none [OF ab(3), of 2]
    by (simp add: ab(1) count_stage_append)
  show ?thesis
  proof (cases "snd (analyze_input_of env st)")
    case (Inl err)
    then show ?thesis
      using z by (simp add: processNotes_events try_body_events try_body_outcome
                     count_stage_append)
  next
    case (Inr result)
    have r: "count_stage 2
               (case snd (with_images env result) of
                  Inl err \<Rightarrow> [] | Inr shown \<Rightarrow> [SetProcessedData shown]) = 0"
      by (cases "snd (with_images env result)") (simp_all add: count_stage_def)
    have c: "count_stage 2 (fst (with_images env result)) = length (fst (with_images env result))"
      using with_images_stage by (rule count_stage_all)
    have "length (fst (with_images env result)) = described (Inr result)"
      by (cases "sections result")
         (simp_all add: with_images_events described_def image_calls_def)
    with Inr z r c show ?thesis
      by (simp add: processNotes_events try_body_events try_body_outcome count_stage_append)
  qed
qed

lemma processNotes_success:
  assumes "error (fst (processNotes env st)) = None"
  shows "\<exists>result ss shown.
           snd (analyze_input_of env st) = Inr result \<and> sections result = Some ss \<and>
           processedData (fst (processNotes env st)) = Some shown \<and>
           snd (processNotes env st) =
             fst (analyze_input_of env st) @ image_calls ss @ [SetProcessedData shown]"
proof -
  from assms obtain shown where t: "snd (try_body env st) = Inr shown"
    by (cases "snd (try_body env st)") (simp_all add: processNotes_final_state)
  then obtain result where a: "snd (analyze_input_of env st) = Inr result"
    and w: "snd (with_images env result) = Inr shown"
    by (cases "snd (analyze_input_of env st)") (simp_all add: try_body_outcome)
  from w obtain ss where ss: "sections result = Some ss"
    by (cases "sections result") (simp_all add: with_images_def throw_def)
  have p: "processedData (fst (processNotes env st)) = Some shown"
    using t by (simp add: processNotes_final_state)
  have "snd (processNotes env st) =
          fst (analyze_input_of env st) @ image_calls ss @ [SetProcessedData shown]"
    using t a ss
    by (simp add: processNotes_events try_body_events with_images_events)
  with a ss p show ?thesis by blast
qed

lemma processNotes_trace:
  "snd (processNotes env st) =
     fst (analyze_input_of env st) @
     (case snd (analyze_input_of env st) of
        Inl err \<Rightarrow> []
      | Inr result \<Rightarrow>
          (case sections result of None \<Rightarrow> [] | Some ss \<Rightarrow> image_calls ss) @
          (case snd (with_images env result) of
             Inl err \<Rightarrow> []
           | Inr shown \<Rightarrow> [SetProcessedData shown]))"
  by (cases "snd (analyze_input_of env st)")
     (simp_all add: processNotes_events try_body_events try_body_outcome with_images_events)

lemma generateDiagramImage_Inl:
  "snd (generateDiagramImage env d) = Inl err \<longleftrightarrow> generateContent env (image_request d) = Inl err"
  by (cases "generateContent env (image_request d)") (simp_all add: generateDiagramImage_def)

lemma generateDiagramImage_isl:
  "isl (snd (generateDiagramImage env d)) \<longleftrightarrow> isl (generateContent env (image_request d))"
  by (cases "generateContent env (image_request d)") (simp_all add: generateDiagramImage_def)

text \<open>The image calls of one list: the rejection that settles first.\<close>

lemma image_promises_first_rejection:
  assumes "\<exists>d \<in> set ds. isl (generateContent env (image_request d))"
  shows "\<exists>d \<in> set ds. \<exists>err.
           generateContent env (image_request d) = Inl err \<and>
           snd (fst (promise_all (image_promises env ds))) = Inl err \<and>
           snd (promise_all (image_promises env ds)) = settles_at env (image_request d) \<and>
           (\<forall>d' \<in> set ds. isl (generateContent env (image_request d')) \<longrightarrow>
              settles_at env (image_request d) \<le> settles_at env (image_request d'))"
proof -
  let ?ms = "image_promises env ds"
  have mem: "m \<in> set ?ms \<longleftrightarrow>
             (\<exists>d \<in> set ds. m = (generateDiagramImage env d, settles_at env (image_request d)))"
    for m
    by (auto simp: image_promises_def)
  from assms obtain d0 where d0: "d0 \<in> set ds" "isl (generateContent env (image_request d0))"
    by blast
  let ?m0 = "(generateDiagramImage env d0, settles_at env (image_request d0))"
  have "?m0 \<in> set ?ms" using d0(1) by (auto simp: mem)
  moreover have "isl (snd (fst ?m0))" using d0(2) by (simp add: generateDiagramImage_isl)
  ultimately have "\<exists>m \<in> set ?ms. isl (snd (fst m))"
    by blast
  from promise_all_first_rejection [OF this] obtain m err where m:
    "m \<in> set ?ms" "snd (fst m) = Inl err" "snd (fst (promise_all ?ms)) = Inl err"
    "snd (promise_all ?ms) = snd m"
    "\<forall>m' \<in> set ?ms. isl (snd (fst m')) \<longrightarrow> snd m \<le> snd m'"
    by blast
  from m(1) obtain d where d: "d \<in> set ds"
    "m = (generateDiagramImage env d, settles_at env (image_request d))"
    by (auto simp: mem)
  have e: "generateContent env (image_request d) = Inl err"
    using m(2) d(2) by (simp add: generateDiagramImage_Inl)
  have t: "snd (promise_all ?ms) = settles_at env (image_request d)"
    using m(4) d(2) by simp
  have least: "settles_at env (image_request d) \<le> settles_at env (image_request d')"
    if "d' \<in> set ds" "isl (generateContent env (image_request d'))" for d'
  proof -
    let ?m' = "(generateDiagramImage env d', settles_at env (image_request d'))"
    have "?m' \<in> set ?ms" using that(1) by (auto simp: mem)
    moreover have "isl (snd (fst ?m'))" using that(2) by (simp add: generateDiagramImage_isl)
    ultimately have "snd m \<le> snd ?m'" using m(5) by blast
    then show ?thesis using d(2) by simp
  qed
  from d(1) e m(3) t least show ?thesis by blast
qed

lemma section_first_rejection:
  assumes "\<exists>d \<in> set (section_descriptions s). isl (generateContent env (image_request d))"
  shows "\<exists>d \<in> set (section_descriptions s). \<exists>err.
           generateContent env (image_request d) = Inl err \<and>
           snd (fst (section_with_images env s)) = Inl err \<and>
           snd (section_with_images env s) = settles_at env (image_request d) \<and>
           (\<forall>d' \<in> set (section_descriptions s). isl (generateContent env (image_request d')) \<longrightarrow>
              settles_at env (image_request d) \<le> settles_at env (image_request d'))"
proof -
  from assms obtain d0 where d0: "d0 \<in> set (section_descriptions s)"
    by blast
  then obtain ds where ds1: "diagrams s = Some ds"
    by (cases "diagrams s") (simp_all add: section_descriptions_def)
  then have ds3: "section_descriptions s = ds"
    by (simp add: section_descriptions_def)
  with d0 have ds2: "ds \<noteq> []"
    by auto
  note ds = ds1 ds2 ds3
  from assms ds(3) have "\<exists>d \<in> set ds. isl (generateContent env (image_request d))"
    by simp
  from image_promises_first_rejection [OF this] obtain d err where d:
    "d \<in> set ds" "generateContent env (image_request d) = Inl err"
    "snd (fst (promise_all (image_promises env ds))) = Inl err"
    "snd (promise_all (image_promises env ds)) = settles_at env (image_request d)"
    "\<forall>d' \<in> set ds. isl (generateContent env (image_request d')) \<longrightarrow>
        settles_at env (image_request d) \<le> settles_at env (image_request d')"
    by blast
  have o: "snd (fst (section_with_images env s)) = Inl err"
    using ds(1,2) d(3) by (simp add: section_with_images_outcome)
  have t: "snd (section_with_images env s) = settles_at env (image_request d)"
    using ds(1,2) d(4) by (simp add: section_with_images_time)
  from d(1,2,5) o t show ?thesis
    unfolding ds(3) by blast
qed

lemma section_resolves:
  assumes "\<forall>d \<in> set (section_descriptions s). \<not> isl (generateContent env (image_request d))"
  shows "\<not> isl (snd (fst (section_with_images env s)))"
proof (cases "diagrams s")
  case None
  then show ?thesis by (simp add: section_with_images_outcome)
next
  case (Some ds)
  with assms have ok: "\<forall>d \<in> set ds. \<not> isl (snd (generateDiagramImage env d))"
    by (simp add: section_descriptions_def generateDiagramImage_isl)
  then have "map (snd \<circ> fst) (image_promises env ds) =
        map Inr (map (\<lambda>d. projr (snd (generateDiagramImage env d))) ds)"
    by (induction ds) (auto simp: image_promises_def)
  then have "snd (fst (promise_all (image_promises env ds))) =
        Inr (map (\<lambda>d. projr (snd (generateDiagramImage env d))) ds)"
    by (rule promise_all_all_Inr)
  with Some show ?thesis
    by (simp add: section_with_images_outcome)
qed

text \<open>All image calls of a result: the rejection that settles first is the one thrown.\<close>

lemma with_images_first_rejection:
  assumes "sections result = Some ss"
    and "\<exists>s \<in> set ss. \<exists>d \<in> set (section_descriptions s).
           isl (generateContent env (image_request d))"
  shows "\<exists>s \<in> set ss. \<exists>d \<in> set (section_descriptions s). \<exists>err.
           generateContent env (image_request d) = Inl err \<and>
           snd (with_images env result) = Inl err \<and>
           (\<forall>s' \<in> set ss. \<forall>d' \<in> set (section_descriptions s').
              isl (generateContent env (image_request d')) \<longrightarrow>
              settles_at env (image_request d) \<le> settles_at env (image_request d'))"
proof -
  let ?ms = "map (section_with_images env) ss"
  from assms(2) obtain s0 where s0: "s0 \<in> set ss"
    "\<exists>d \<in> set (section_descriptions s0). isl (generateContent env (image_request d))"
    by blast
  from section_first_rejection [OF s0(2)] have "isl (snd (fst (section_with_images env s0)))"
    by auto
  with s0(1) have "\<exists>m \<in> set ?ms. isl (snd (fst m))"
    by auto
  from promise_all_first_rejection [OF this] obtain m err where m:
    "m \<in> set ?ms" "snd (fst m) = Inl err" "snd (fst (promise_all ?ms)) = Inl err"
    "snd (promise_all ?ms) = snd m"
    "\<forall>m' \<in> set ?ms. isl (snd (fst m')) \<longrightarrow> snd m \<le> snd m'"
    by blast
  from m(1) obtain s where s: "s \<in> set ss" "m = section_with_images env s"
    by auto
  have failing: "\<exists>d \<in> set (section_descriptions s). isl (generateContent env (image_request d))"
  proof (rule ccontr)
    assume "\<not> ?thesis"
    then have "\<not> isl (snd (fst (section_with_images env s)))"
      by (intro section_resolves) simp
    with m(2) s(2) show False by simp
  qed
  from section_first_rejection [OF failing] obtain d err' where d:
    "d \<in> set (section_descriptions s)" "generateContent env (image_request d) = Inl err'"
    "snd (fst (section_with_images env s)) = Inl err'"
    "snd (section_with_images env s) = settles_at env (image_request d)"
    by blast
  from d(3) m(2) s(2) have same: "err' = err" by simp
  have thrown: "snd (with_images env result) = Inl err"
    using assms(1) m(3) by (simp add: with_images_def and_then_outcome)
  have least: "settles_at env (image_request d) \<le> settles_at env (image_request d')"
    if "s' \<in> set ss" "d' \<in> set (section_descriptions s')"
      "isl (generateContent env (image_request d'))" for s' d'
  proof -
    from that(2,3) have
      "\<exists>d \<in> set (section_descriptions s'). isl (generateContent env (image_request d))"
      by blast
    from section_first_rejection [OF this] obtain d'' err'' where d'':
      "snd (fst (section_with_images env s')) = Inl err''"
      "snd (section_with_images env s') = settles_at env (image_request d'')"
      "\<forall>x \<in> set (section_descriptions s'). isl (generateContent env (image_request x)) \<longrightarrow>
          settles_at env (image_request d'') \<le> settles_at env (image_request x)"
      by blast
    have "section_with_images env s' \<in> set ?ms" using that(1) by simp
    moreover have "isl (snd (fst (section_with_images env s')))" using d''(1) by simp
    ultimately have "snd m \<le> snd (section_with_images env s')" using m(5) by blast
    then have "settles_at env (image_request d) \<le> settles_at env (image_request d'')"
      using s(2) d(4) d''(2) by simp
    moreover have "settles_at env (image_request d'') \<le> settles_at env (image_request d')"
      using d''(3) that(2,3) by blast
    ultimately show ?thesis by linarith
  qed
  from s(1) d(1) d(2) same thrown least show ?thesis by blast
qed

lemma analyzeNotes_outcome:
  "snd (analyzeNotes env input) =
     (case analysis_contents input of
        Inl err \<Rightarrow> Inl err
      | Inr contents \<Rightarrow>
          (case generateContent env (analysis_request contents) of
             Inl err \<Rightarrow> Inl err
           | Inr resp \<Rightarrow> JSON_parse env (text_or_empty_object (response_text resp))))"
  by (simp add: analyzeNotes_def parse_response_def split: sum.splits)

lemma analyze_input_of_outcome:
  "snd (analyze_input_of env st) =
     (if files st \<noteq> [] then
        snd (analyzeNotes env (ImageInput (map (readAsDataURL env) (files st))))
      else
        (case (docUrl st \<noteq> [], googleTokens st) of
           (True, Some toks) \<Rightarrow>
             (case docId_match (docUrl st) of
                None \<Rightarrow> Inl (JsError (Some ''Invalid Google Doc URL''))
              | Some doc_id \<Rightarrow>
                  (case fetch_content env doc_id toks of
                     Inl err \<Rightarrow> Inl err
                   | Inr doc_text \<Rightarrow> snd (analyzeNotes env (TextInput doc_text))))
         | _ \<Rightarrow> Inl (JsError (Some ''Please provide notes via image or Google Doc''))))"
  by (simp add: analyze_input_of_def and_then_outcome read_files_def fetch_google_doc_def
        throw_def split: option.splits bool.splits sum.splits)

lemma with_images_no_sections:
  "sections result = None \<Longrightarrow>
   snd (with_images env result) =
     Inl (JsError (Some ''Cannot read properties of undefined (reading 'map')''))"
  by (simp add: with_images_def throw_def)

lemma demo_docId_match: "docId_match (docUrl doc_state) = Some demo_docId"
  by (simp add: doc_state_def empty_state_def demo_state_def demo_docId_def is_id_char_def)

lemma doc_state_fields:
  "files doc_state = []" "docUrl doc_state \<noteq> []" "googleTokens doc_state = Some demo_tokens"
  "processedData doc_state = Some demo_notes"
  by (simp_all add: doc_state_def empty_state_def demo_state_def)

lemma files_state_fields:
  "files files_state = [''/9j/4AAQ'']" "processedData files_state = Some demo_notes"
  by (simp_all add: files_state_def doc_state_def empty_state_def demo_state_def)

lemma files_contents:
  "readAsDataURL env = readAsDataURL demo_client \<Longrightarrow>
   analysis_contents (ImageInput (map (readAsDataURL env) (files files_state))) =
     Inr demo_contents"
  by (simp add: files_state_fields analysis_contents_def demo_client_def demo_contents_def
        split_comma_second_def)

lemma doc_contents_input:
  "analysis_contents (TextInput (Some ''notes text'')) = Inr doc_contents"
  by (simp add: analysis_contents_def doc_contents_def opt_to_string_def)

lemma demo_answer:
  "generateContent demo_client (analysis_request contents) =
     Inr \<lparr>response_text = Some demo_text, candidate_parts = None\<rparr>"
  "generateContent failing_images_client (analysis_request contents) =
     Inr \<lparr>response_text = Some demo_text, candidate_parts = None\<rparr>"
  by (simp_all add: demo_client_def failing_images_client_def demo_generateContent_def
        failing_generateContent_def analysis_request_def)

lemma demo_parse:
  "JSON_parse demo_client (text_or_empty_object (Some demo_text)) = Inr demo_notes"
  "JSON_parse failing_images_client (text_or_empty_object (Some demo_text)) = Inr demo_notes"
  by (simp_all add: demo_client_def failing_images_client_def demo_JSON_parse_def
        text_or_empty_object_def demo_text_def)

text \<open>
  Claim C3. Every run of \<open>processNotes\<close> causes its events in the order of the
  pipeline, and these events only: first the input is collected (the files are read when
  there is at least one, otherwise the Google Doc is fetched), then the model is called
  once, with the fixed system instruction and response schema, then one image-generation
  call is made for each diagram description of the result, whether or not the other
  image calls succeed, and only then, if none of them failed, the result is set for the
  preview. No image call and no render happens unless the analysis has returned a result.
\<close>

theorem processNotes_order:
  "sorted (map stage (snd (processNotes env st))) \<and>
   count_stage 1 (snd (processNotes env st)) \<le> 1 \<and>
   count_stage 3 (snd (processNotes env st)) \<le> 1 \<and>
   (0 < count_stage 2 (snd (processNotes env st)) + count_stage 3 (snd (processNotes env st)) \<longrightarrow>
      count_stage 1 (snd (processNotes env st)) = 1 \<and>
      (\<exists>result. snd (analyze_input_of env st) = Inr result)) \<and>
   (error (fst (processNotes env st)) = None \<longrightarrow>
      (\<exists>result ss shown.
         snd (analyze_input_of env st) = Inr result \<and> sections result = Some ss \<and>
         processedData (fst (processNotes env st)) = Some shown \<and>
         snd (processNotes env st) =
           fst (analyze_input_of env st) @ image_calls ss @ [SetProcessedData shown])) \<and>
   (files st \<noteq> [] \<longrightarrow>
      fst (analyze_input_of env st) =
        map ReadFile (files st) @
        fst (analyzeNotes env (ImageInput (map (readAsDataURL env) (files st))))) \<and>
   (files st = [] \<and> docUrl st \<noteq> [] \<and> googleTokens st = Some toks \<and>
    docId_match (docUrl st) = Some doc_id \<and> fetch_content env doc_id toks = Inr doc_text \<longrightarrow>
      fst (analyze_input_of env st) =
        FetchGoogleDoc doc_id toks # fst (analyzeNotes env (TextInput doc_text))) \<and>
   (analysis_contents input = Inr contents \<longrightarrow>
      fst (analyzeNotes env input) = [GenerateContent (analysis_request contents)] \<and>
      systemInstruction (analysis_request contents) = Some systemInstruction_text \<and>
      responseSchema (analysis_request contents) = Some analyze_responseSchema) \<and>
   snd (processNotes env st) =
     fst (analyze_input_of env st) @
     (case snd (analyze_input_of env st) of
        Inl err \<Rightarrow> []
      | Inr result \<Rightarrow>
          (case sections result of None \<Rightarrow> [] | Some ss \<Rightarrow> image_calls ss) @
          (case snd (with_images env result) of
             Inl err \<Rightarrow> []
           | Inr shown \<Rightarrow> [SetProcessedData shown])) \<and>
   fst (analyze_input_of env st) =
     (if files st \<noteq> [] then
        map ReadFile (files st) @
        fst (analyzeNotes env (ImageInput (map (readAsDataURL env) (files st))))
      else
        (case (docUrl st \<noteq> [], googleTokens st) of
           (True, Some toks) \<Rightarrow>
             (case docId_match (docUrl st) of
                None \<Rightarrow> []
              | Some doc_id \<Rightarrow>
                  FetchGoogleDoc doc_id toks #
                  (case fetch_content env doc_id toks of
                     Inl err \<Rightarrow> []
                   | Inr doc_text \<Rightarrow> fst (analyzeNotes env (TextInput doc_text))))
         | _ \<Rightarrow> [])) \<and>
   fst (analyzeNotes env input) =
     (case analysis_contents input of
        Inl err \<Rightarrow> []
      | Inr contents \<Rightarrow> [GenerateContent (analysis_request contents)]) \<and>
   image_calls sections_list =
     concat (map (\<lambda>s. map (\<lambda>d. GenerateContent (image_request d))
                          (case diagrams s of None \<Rightarrow> [] | Some ds \<Rightarrow> ds)) sections_list)"
proof -
  note g = processNotes_order_general [of env st]
  have s: "error (fst (processNotes env st)) = None \<longrightarrow>
      (\<exists>result ss shown.
         snd (analyze_input_of env st) = Inr result \<and> sections result = Some ss \<and>
         processedData (fst (processNotes env st)) = Some shown \<and>
         snd (processNotes env st) =
           fst (analyze_input_of env st) @ image_calls ss @ [SetProcessedData shown])"
    using processNotes_success by blast
  have f: "files st \<noteq> [] \<longrightarrow>
      fst (analyze_input_of env st) =
        map ReadFile (files st) @
        fst (analyzeNotes env (ImageInput (map (readAsDataURL env) (files st))))"
    by (simp add: analyze_input_of_events)
  have d: "files st = [] \<and> docUrl st \<noteq> [] \<and> googleTokens st = Some toks \<and>
    docId_match (docUrl st) = Some doc_id \<and> fetch_content env doc_id toks = Inr doc_text \<longrightarrow>
      fst (analyze_input_of env st) =
        FetchGoogleDoc doc_id toks # fst (analyzeNotes env (TextInput doc_text))"
    by (simp add: analyze_input_of_events)
  have a: "analysis_contents input = Inr contents \<longrightarrow>
      fst (analyzeNotes env input) = [GenerateContent (analysis_request contents)] \<and>
      systemInstruction (analysis_request contents) = Some systemInstruction_text \<and>
      responseSchema (analysis_request contents) = Some analyze_responseSchema"
    by (simp add: analyzeNotes_events analysis_request_def)
  have i: "image_calls sections_list =
     concat (map (\<lambda>s. map (\<lambda>d. GenerateContent (image_request d))
                          (case diagrams s of None \<Rightarrow> [] | Some ds \<Rightarrow> ds)) sections_list)"
    by (induction sections_list) (simp_all add: image_calls_def section_descriptions_def)
  from g(1) g(3) g(4) g(5) s f d a processNotes_trace [of env st]
    analyze_input_of_events [of env st] analyzeNotes_events [of env input] i
  show ?thesis
    by (intro conjI)
qed

lemma demo_try_body_plain: "snd (try_body demo_client demo_state) = Inr demo_shown"
  using demo_try_body by (simp add: try_body_state)

lemma demo_run_ok: "error (fst (processNotes demo_client demo_state)) = None"
  by (simp add: processNotes_final_state demo_try_body_plain)

lemma demo_run_shown: "processedData (fst (processNotes demo_client demo_state)) = Some demo_shown"
  by (simp add: processNotes_final_state demo_try_body_plain)

lemma demo_analysis_plain: "snd (analyze_input_of demo_client demo_state) = Inr demo_notes"
  using demo_read_analysis by (simp add: analyze_input_of_state)

lemma demo_contents_input:
  "analysis_contents (ImageInput (map (readAsDataURL demo_client) (files demo_state))) =
     Inr demo_contents"
  by (simp add: analysis_contents_def demo_client_def demo_state_def demo_contents_def
        split_comma_second_def)

lemma files_run_input:
  assumes "readAsDataURL env = readAsDataURL demo_client"
    and "generateContent env (analysis_request demo_contents) =
           Inr \<lparr>response_text = Some demo_text, candidate_parts = None\<rparr>"
    and "JSON_parse env (text_or_empty_object (Some demo_text)) = Inr demo_notes"
  shows "fst (analyze_input_of env files_state) =
           [ReadFile ''/9j/4AAQ'', GenerateContent (analysis_request demo_contents)]"
    and "snd (analyze_input_of env files_state) = Inr demo_notes"
  using assms files_contents [OF assms(1)]
  by (simp_all add: analyze_input_of_events analyze_input_of_outcome analyzeNotes_events
        analyzeNotes_outcome files_state_fields)

lemma failing_run_input:
  "fst (analyze_input_of failing_images_client files_state) =
     [ReadFile ''/9j/4AAQ'', GenerateContent (analysis_request demo_contents)]"
  "snd (analyze_input_of failing_images_client files_state) = Inr demo_notes"
proof -
  have r: "readAsDataURL failing_images_client = readAsDataURL demo_client"
    by (simp add: failing_images_client_def)
  show "fst (analyze_input_of failing_images_client files_state) =
     [ReadFile ''/9j/4AAQ'', GenerateContent (analysis_request demo_contents)]"
    by (rule files_run_input(1) [OF r demo_answer(2) demo_parse(2)])
  show "snd (analyze_input_of failing_images_client files_state) = Inr demo_notes"
    by (rule files_run_input(2) [OF r demo_answer(2) demo_parse(2)])
qed

lemma doc_run_input:
  "fst (analyze_input_of demo_client doc_state) =
     [FetchGoogleDoc demo_docId demo_tokens, GenerateContent (analysis_request doc_contents)]"
  "snd (analyze_input_of demo_client doc_state) = Inr demo_notes"
proof -
  have f: "fetch_content demo_client demo_docId demo_tokens = Inr (Some ''notes text'')"
    by (simp add: demo_client_def)
  show "fst (analyze_input_of demo_client doc_state) =
     [FetchGoogleDoc demo_docId demo_tokens, GenerateContent (analysis_request doc_contents)]"
    using doc_state_fields(2)
    by (simp add: analyze_input_of_events doc_state_fields(1,3) demo_docId_match f
          analyzeNotes_events doc_contents_input)
  show "snd (analyze_input_of demo_client doc_state) = Inr demo_notes"
    using doc_state_fields(2)
    by (simp add: analyze_input_of_outcome doc_state_fields(1,3) demo_docId_match f
          analyzeNotes_outcome doc_contents_input demo_answer(1) demo_parse(1))
qed

lemma failing_image_answers:
  "generateContent failing_images_client (image_request ''spindle'') =
     Inl (JsError (Some ''spindle: quota exceeded''))"
  "generateContent failing_images_client (image_request ''membrane'') =
     Inl (JsError (Some ''membrane: blocked''))"
  "settles_at failing_images_client (image_request ''spindle'') = 900"
  "settles_at failing_images_client (image_request ''membrane'') = 400"
  by (simp_all add: failing_images_client_def failing_generateContent_def demo_client_def
        image_request_def)

lemma demo_sections: "sections demo_notes = Some [demo_section]"
  "section_descriptions demo_section = [''spindle'', ''membrane'']"
  by (simp_all add: demo_notes_def demo_section_def section_descriptions_def)

lemma demo_image_calls:
  "image_calls [demo_section] =
     [GenerateContent (image_request ''spindle''), GenerateContent (image_request ''membrane'')]"
  by (simp add: image_calls_def demo_sections)

lemma failing_images_thrown:
  "snd (with_images failing_images_client demo_notes) = Inl (JsError (Some ''membrane: blocked''))"
proof -
  have "\<exists>s \<in> set [demo_section]. \<exists>d \<in> set (section_descriptions s).
           isl (generateContent failing_images_client (image_request d))"
    by (simp add: demo_sections failing_image_answers)
  from with_images_first_rejection [OF demo_sections(1) this] obtain d err where d:
    "d \<in> set (section_descriptions demo_section)"
    "generateContent failing_images_client (image_request d) = Inl err"
    "snd (with_images failing_images_client demo_notes) = Inl err"
    "\<forall>d' \<in> set (section_descriptions demo_section).
        isl (generateContent failing_images_client (image_request d')) \<longrightarrow>
        settles_at failing_images_client (image_request d) \<le>
        settles_at failing_images_client (image_request d')"
    by auto
  from d(4) have "settles_at failing_images_client (image_request d) \<le> 400"
    using failing_image_answers by (simp add: demo_sections)
  with d(1) have "d = ''membrane''"
    using failing_image_answers(3) by (auto simp: demo_sections)
  with d(2,3) show ?thesis
    by (simp add: failing_image_answers)
qed

theorem processNotes_order_witness:
  "snd (processNotes demo_client doc_state) =
     [FetchGoogleDoc demo_docId demo_tokens,
      GenerateContent (analysis_request doc_contents),
      GenerateContent (image_request ''spindle''),
      GenerateContent (image_request ''membrane''),
      SetProcessedData demo_shown] \<and>
   snd (processNotes failing_images_client files_state) =
     [ReadFile ''/9j/4AAQ'',
      GenerateContent (analysis_request demo_contents),
      GenerateContent (image_request ''spindle''),
      GenerateContent (image_request ''membrane'')] \<and>
   map stage (snd (processNotes failing_images_client files_state)) = [0, 1, 2, 2] \<and>
   error (fst (processNotes demo_client demo_state)) = None \<and>
   snd (processNotes demo_client demo_state) =
     [ReadFile ''/9j/4AAQ'',
      GenerateContent (analysis_request demo_contents),
      GenerateContent (image_request ''spindle''),
      GenerateContent (image_request ''membrane''),
      SetProcessedData demo_shown]"
proof -
  have doc: "snd (processNotes demo_client doc_state) =
     [FetchGoogleDoc demo_docId demo_tokens,
      GenerateContent (analysis_request doc_contents),
      GenerateContent (image_request ''spindle''),
      GenerateContent (image_request ''membrane''),
      SetProcessedData demo_shown]"
  proof -
    from processNotes_order [of demo_client doc_state] have
      "snd (processNotes demo_client doc_state) =
         fst (analyze_input_of demo_client doc_state) @
         (case snd (analyze_input_of demo_client doc_state) of
            Inl err \<Rightarrow> []
          | Inr result \<Rightarrow>
              (case sections result of None \<Rightarrow> [] | Some ss \<Rightarrow> image_calls ss) @
              (case snd (with_images demo_client result) of
                 Inl err \<Rightarrow> []
               | Inr shown \<Rightarrow> [SetProcessedData shown]))"
      by blast
    then show ?thesis
      by (simp add: doc_run_input demo_sections(1) demo_image_calls demo_with_images)
  qed
  have failing: "snd (processNotes failing_images_client files_state) =
     [ReadFile ''/9j/4AAQ'',
      GenerateContent (analysis_request demo_contents),
      GenerateContent (image_request ''spindle''),
      GenerateContent (image_request ''membrane'')]"
  proof -
    from processNotes_order [of failing_images_client files_state] have
      "snd (processNotes failing_images_client files_state) =
         fst (analyze_input_of failing_images_client files_state) @
         (case snd (analyze_input_of failing_images_client files_state) of
            Inl err \<Rightarrow> []
          | Inr result \<Rightarrow>
              (case sections result of None \<Rightarrow> [] | Some ss \<Rightarrow> image_calls ss) @
              (case snd (with_images failing_images_client result) of
                 Inl err \<Rightarrow> []
               | Inr shown \<Rightarrow> [SetProcessedData shown]))"
      by blast
    then show ?thesis
      by (simp add: failing_run_input demo_sections(1) demo_image_calls failing_images_thrown)
  qed
  have stages: "map stage (snd (processNotes failing_images_client files_state)) = [0, 1, 2, 2]"
    unfolding failing by simp
  have ok: "error (fst (processNotes demo_client demo_state)) = None"
    by (rule demo_run_ok)
  have plain: "snd (processNotes demo_client demo_state) =
     [ReadFile ''/9j/4AAQ'',
      GenerateContent (analysis_request demo_contents),
      GenerateContent (image_request ''spindle''),
      GenerateContent (image_request ''membrane''),
      SetProcessedData demo_shown]"
  proof -
    note t = processNotes_order
      [of demo_client demo_state _ _ _
          "ImageInput (map (readAsDataURL demo_client) (files demo_state))" demo_contents]
    have f: "files demo_state \<noteq> []"
      by (simp add: demo_state_def)
    from t f demo_contents_input have inp:
      "fst (analyze_input_of demo_client demo_state) =
         map ReadFile (files demo_state) @ [GenerateContent (analysis_request demo_contents)]"
      by simp
    from t ok obtain result ss shown where r:
      "snd (analyze_input_of demo_client demo_state) = Inr result" "sections result = Some ss"
      "processedData (fst (processNotes demo_client demo_state)) = Some shown"
      "snd (processNotes demo_client demo_state) =
         fst (analyze_input_of demo_client demo_state) @ image_calls ss @ [SetProcessedData shown]"
      by blast
    from r(1) demo_analysis_plain have "result = demo_notes" by simp
    with r(2) have ss: "ss = [demo_section]" by (simp add: demo_notes_def)
    from r(3) demo_run_shown have sh: "shown = demo_shown" by simp
    show ?thesis
      unfolding r(4) inp ss sh
      by (simp add: demo_image_calls demo_state_def)
  qed
  from doc failing stages ok plain show ?thesis
    by (intro conjI)
qed

subsection \<open>Errors\<close>

lemma no_input_throws:
  "files st = [] \<Longrightarrow> docUrl st = [] \<or> googleTokens st = None \<Longrightarrow>
   snd (try_body env st) = Inl (JsError (Some ''Please provide notes via image or Google Doc''))"
  by (auto simp: try_body_outcome analyze_input_of_def throw_def
        split: option.splits bool.splits)

lemma invalid_url_throws:
  "files st = [] \<Longrightarrow> docUrl st \<noteq> [] \<Longrightarrow> googleTokens st = Some toks \<Longrightarrow>
   docId_match (docUrl st) = None \<Longrightarrow>
   snd (try_body env st) = Inl (JsError (Some ''Invalid Google Doc URL''))"
  by (simp add: try_body_outcome analyze_input_of_def throw_def)

lemma analysis_failure_reported:
  assumes "files st \<noteq> []"
    and "analysis_contents (ImageInput (map (readAsDataURL env) (files st))) = Inr contents"
    and "generateContent env (analysis_request contents) = Inl err"
  shows "snd (try_body env st) = Inl err"
    and "fst (try_body env st) = map ReadFile (files st) @ [GenerateContent (analysis_request contents)]"
  using assms
  by (simp_all add: try_body_outcome try_body_events analyze_input_of_outcome
        analyze_input_of_events analyzeNotes_outcome analyzeNotes_events)

lemma fetch_failure_reported:
  assumes "files st = []" and "docUrl st \<noteq> []" and "googleTokens st = Some toks"
    and "docId_match (docUrl st) = Some doc_id" and "fetch_content env doc_id toks = Inl err"
  shows "snd (try_body env st) = Inl err"
    and "fst (try_body env st) = [FetchGoogleDoc doc_id toks]"
  using assms
  by (simp_all add: try_body_outcome try_body_events analyze_input_of_outcome
        analyze_input_of_events)

lemma image_failure_reported:
  assumes "snd (analyze_input_of env st) = Inr result" and "sections result = Some ss"
    and "\<exists>s \<in> set ss. \<exists>d \<in> set (section_descriptions s).
           isl (generateContent env (image_request d))"
  shows "\<exists>s \<in> set ss. \<exists>d \<in> set (section_descriptions s). \<exists>err.
           generateContent env (image_request d) = Inl err \<and>
           (\<forall>s' \<in> set ss. \<forall>d' \<in> set (section_descriptions s').
              isl (generateContent env (image_request d')) \<longrightarrow>
              settles_at env (image_request d) \<le> settles_at env (image_request d')) \<and>
           snd (try_body env st) = Inl err \<and>
           fst (try_body env st) = fst (analyze_input_of env st) @ image_calls ss"
proof -
  from with_images_first_rejection [OF assms(2,3)] obtain s d err where w:
    "s \<in> set ss" "d \<in> set (section_descriptions s)"
    "generateContent env (image_request d) = Inl err"
    "snd (with_images env result) = Inl err"
    "\<forall>s' \<in> set ss. \<forall>d' \<in> set (section_descriptions s').
        isl (generateContent env (image_request d')) \<longrightarrow>
        settles_at env (image_request d) \<le> settles_at env (image_request d')"
    by blast
  have o: "snd (try_body env st) = Inl err"
    using assms(1) w(4) by (simp add: try_body_outcome)
  have e: "fst (try_body env st) = fst (analyze_input_of env st) @ image_calls ss"
    using assms(1,2) by (simp add: try_body_events with_images_events)
  from w(1,2,3,5) o e show ?thesis by blast
qed

text \<open>
  Claim C7. When a step of \<open>processNotes\<close> throws, the error is caught and reported:
  \<open>error\<close> becomes the thrown message, or \<open>Failed to process notes\<close> when the message
  is empty or missing; \<open>processedData\<close> keeps its value, \<open>isProcessing\<close> is reset, nothing
  is rendered and no call is repeated (the input is collected once, the analysis is called
  at most once, and there is at most one image call per description). What is thrown: the
  two messages for a missing input and an invalid URL, the rejection of the fetch, of the
  analysis call or of \<open>JSON.parse\<close>, and the rejection of an image call, which is the
  one that settles first when several image calls fail.
\<close>

theorem processNotes_reports_error:
  "(snd (try_body env st) = Inl thrown \<longrightarrow>
      fst (processNotes env st) = st\<lparr>isProcessing := False, error := Some (error_text thrown)\<rparr> \<and>
      error (fst (processNotes env st)) =
        Some (case message thrown of
                None \<Rightarrow> ''Failed to process notes''
              | Some m \<Rightarrow> if m = [] then ''Failed to process notes'' else m) \<and>
      processedData (fst (processNotes env st)) = processedData st \<and>
      isProcessing (fst (processNotes env st)) = False \<and>
      snd (processNotes env st) = fst (try_body env st) \<and>
      count_stage 3 (snd (processNotes env st)) = 0 \<and>
      (files st = [] \<and> (docUrl st = [] \<or> googleTokens st = None) \<longrightarrow>
         thrown = JsError (Some ''Please provide notes via image or Google Doc'')) \<and>
      (files st = [] \<and> docUrl st \<noteq> [] \<and> googleTokens st \<noteq> None \<and>
       docId_match (docUrl st) = None \<longrightarrow>
         thrown = JsError (Some ''Invalid Google Doc URL''))) \<and>
   count_stage 0 (snd (processNotes env st)) \<le> max 1 (length (files st)) \<and>
   count_stage 1 (snd (processNotes env st)) \<le> 1 \<and>
   count_stage 2 (snd (processNotes env st)) \<le> described (snd (analyze_input_of env st)) \<and>
   (files st \<noteq> [] \<and>
    analysis_contents (ImageInput (map (readAsDataURL env) (files st))) = Inr contents \<and>
    generateContent env (analysis_request contents) = Inl err \<longrightarrow>
      snd (try_body env st) = Inl err \<and>
      fst (try_body env st) =
        map ReadFile (files st) @ [GenerateContent (analysis_request contents)]) \<and>
   (files st = [] \<and> docUrl st \<noteq> [] \<and> googleTokens st = Some toks \<and>
    docId_match (docUrl st) = Some doc_id \<and> fetch_content env doc_id toks = Inl err \<longrightarrow>
      snd (try_body env st) = Inl err \<and>
      fst (try_body env st) = [FetchGoogleDoc doc_id toks]) \<and>
   (snd (analyze_input_of env st) = Inr result \<and> sections result = Some ss \<and>
    (\<exists>s \<in> set ss. \<exists>d \<in> set (section_descriptions s).
       isl (generateContent env (image_request d))) \<longrightarrow>
      (\<exists>s \<in> set ss. \<exists>d \<in> set (section_descriptions s). \<exists>err.
         generateContent env (image_request d) = Inl err \<and>
         (\<forall>s' \<in> set ss. \<forall>d' \<in> set (section_descriptions s').
            isl (generateContent env (image_request d')) \<longrightarrow>
            settles_at env (image_request d) \<le> settles_at env (image_request d')) \<and>
         snd (try_body env st) = Inl err \<and>
         fst (try_body env st) = fst (analyze_input_of env st) @ image_calls ss)) \<and>
   (snd (analyze_input_of env st) = Inr result \<and> sections result = None \<longrightarrow>
      snd (try_body env st) =
        Inl (JsError (Some ''Cannot read properties of undefined (reading 'map')''))) \<and>
   snd (try_body env st) =
     (case snd (analyze_input_of env st) of
        Inl err \<Rightarrow> Inl err
      | Inr result \<Rightarrow> snd (with_images env result)) \<and>
   snd (analyze_input_of env st) =
     (if files st \<noteq> [] then
        snd (analyzeNotes env (ImageInput (map (readAsDataURL env) (files st))))
      else
        (case (docUrl st \<noteq> [], googleTokens st) of
           (True, Some toks) \<Rightarrow>
             (case docId_match (docUrl st) of
                None \<Rightarrow> Inl (JsError (Some ''Invalid Google Doc URL''))
              | Some doc_id \<Rightarrow>
                  (case fetch_content env doc_id toks of
                     Inl err \<Rightarrow> Inl err
                   | Inr doc_text \<Rightarrow> snd (analyzeNotes env (TextInput doc_text))))
         | _ \<Rightarrow> Inl (JsError (Some ''Please provide notes via image or Google Doc'')))) \<and>
   snd (analyzeNotes env input) =
     (case analysis_contents input of
        Inl err \<Rightarrow> Inl err
      | Inr contents \<Rightarrow>
          (case generateContent env (analysis_request contents) of
             Inl err \<Rightarrow> Inl err
           | Inr resp \<Rightarrow> JSON_parse env (text_or_empty_object (response_text resp))))"
proof -
  have general: "snd (try_body env st) = Inl thrown \<longrightarrow>
      fst (processNotes env st) = st\<lparr>isProcessing := False, error := Some (error_text thrown)\<rparr> \<and>
      error (fst (processNotes env st)) =
        Some (case message thrown of
                None \<Rightarrow> ''Failed to process notes''
              | Some m \<Rightarrow> if m = [] then ''Failed to process notes'' else m) \<and>
      processedData (fst (processNotes env st)) = processedData st \<and>
      isProcessing (fst (processNotes env st)) = False \<and>
      snd (processNotes env st) = fst (try_body env st) \<and>
      count_stage 3 (snd (processNotes env st)) = 0 \<and>
      (files st = [] \<and> (docUrl st = [] \<or> googleTokens st = None) \<longrightarrow>
         thrown = JsError (Some ''Please provide notes via image or Google Doc'')) \<and>
      (files st = [] \<and> docUrl st \<noteq> [] \<and> googleTokens st \<noteq> None \<and>
       docId_match (docUrl st) = None \<longrightarrow>
         thrown = JsError (Some ''Invalid Google Doc URL''))"
  proof
    assume a: "snd (try_body env st) = Inl thrown"
    have s: "fst (processNotes env st) =
               st\<lparr>isProcessing := False, error := Some (error_text thrown)\<rparr>"
      using a by (simp add: processNotes_final_state)
    have e: "error (fst (processNotes env st)) =
           Some (case message thrown of
                   None \<Rightarrow> ''Failed to process notes''
                 | Some m \<Rightarrow> if m = [] then ''Failed to process notes'' else m)"
      unfolding s by (simp add: error_text_def)
    have p: "processedData (fst (processNotes env st)) = processedData st"
      unfolding s by simp
    have i: "isProcessing (fst (processNotes env st)) = False"
      unfolding s by simp
    have t: "snd (processNotes env st) = fst (try_body env st)"
      using a by (simp add: processNotes_events)
    have c3: "count_stage 3 (snd (processNotes env st)) = 0"
      using processNotes_order_general(6) [of env st] a by blast
    have n1: "files st = [] \<and> (docUrl st = [] \<or> googleTokens st = None) \<longrightarrow>
            thrown = JsError (Some ''Please provide notes via image or Google Doc'')"
      using a no_input_throws [of st env] by auto
    have n2: "files st = [] \<and> docUrl st \<noteq> [] \<and> googleTokens st \<noteq> None \<and>
          docId_match (docUrl st) = None \<longrightarrow>
            thrown = JsError (Some ''Invalid Google Doc URL'')"
      using a invalid_url_throws [of st _ env] by auto
    from s e p i t c3 n1 n2 show
      "fst (processNotes env st) = st\<lparr>isProcessing := False, error := Some (error_text thrown)\<rparr> \<and>
      error (fst (processNotes env st)) =
        Some (case message thrown of
                None \<Rightarrow> ''Failed to process notes''
              | Some m \<Rightarrow> if m = [] then ''Failed to process notes'' else m) \<and>
      processedData (fst (processNotes env st)) = processedData st \<and>
      isProcessing (fst (processNotes env st)) = False \<and>
      snd (processNotes env st) = fst (try_body env st) \<and>
      count_stage 3 (snd (processNotes env st)) = 0 \<and>
      (files st = [] \<and> (docUrl st = [] \<or> googleTokens st = None) \<longrightarrow>
         thrown = JsError (Some ''Please provide notes via image or Google Doc'')) \<and>
      (files st = [] \<and> docUrl st \<noteq> [] \<and> googleTokens st \<noteq> None \<and>
       docId_match (docUrl st) = None \<longrightarrow>
         thrown = JsError (Some ''Invalid Google Doc URL''))"
      by (intro conjI)
  qed
  note g = processNotes_order_general [of env st]
  have an: "files st \<noteq> [] \<and>
    analysis_contents (ImageInput (map (readAsDataURL env) (files st))) = Inr contents \<and>
    generateContent env (analysis_request contents) = Inl err \<longrightarrow>
      snd (try_body env st) = Inl err \<and>
      fst (try_body env st) =
        map ReadFile (files st) @ [GenerateContent (analysis_request contents)]"
    using analysis_failure_reported [of st env contents err] by blast
  have fe: "files st = [] \<and> docUrl st \<noteq> [] \<and> googleTokens st = Some toks \<and>
    docId_match (docUrl st) = Some doc_id \<and> fetch_content env doc_id toks = Inl err \<longrightarrow>
      snd (try_body env st) = Inl err \<and>
      fst (try_body env st) = [FetchGoogleDoc doc_id toks]"
    using fetch_failure_reported [of st toks doc_id env err] by blast
  have im: "snd (analyze_input_of env st) = Inr result \<and> sections result = Some ss \<and>
    (\<exists>s \<in> set ss. \<exists>d \<in> set (section_descriptions s).
       isl (generateContent env (image_request d))) \<longrightarrow>
      (\<exists>s \<in> set ss. \<exists>d \<in> set (section_descriptions s). \<exists>err.
         generateContent env (image_request d) = Inl err \<and>
         (\<forall>s' \<in> set ss. \<forall>d' \<in> set (section_descriptions s').
            isl (generateContent env (image_request d')) \<longrightarrow>
            settles_at env (image_request d) \<le> settles_at env (image_request d')) \<and>
         snd (try_body env st) = Inl err \<and>
         fst (try_body env st) = fst (analyze_input_of env st) @ image_calls ss)"
    using image_failure_reported [of env st result ss] by blast
  have ns: "snd (analyze_input_of env st) = Inr result \<and> sections result = None \<longrightarrow>
      snd (try_body env st) =
        Inl (JsError (Some ''Cannot read properties of undefined (reading 'map')''))"
    by (simp add: try_body_outcome with_images_no_sections)
  from general g(2) g(3) image_call_count [of env st] an fe im ns
    try_body_outcome [of env st] analyze_input_of_outcome [of env st]
    analyzeNotes_outcome [of env input]
  show ?thesis
    by (intro conjI)
qed

theorem processNotes_reports_error_witness:
  "fst (processNotes offline_client files_state) =
     files_state\<lparr>isProcessing := False, error := Some ''fetch failed''\<rparr> \<and>
   processedData (fst (processNotes offline_client files_state)) = Some demo_notes \<and>
   snd (processNotes offline_client files_state) =
     [ReadFile ''/9j/4AAQ'', GenerateContent (analysis_request demo_contents)] \<and>
   error (fst (processNotes failing_images_client files_state)) = Some ''membrane: blocked'' \<and>
   processedData (fst (processNotes failing_images_client files_state)) = Some demo_notes \<and>
   snd (processNotes failing_images_client files_state) =
     [ReadFile ''/9j/4AAQ'',
      GenerateContent (analysis_request demo_contents),
      GenerateContent (image_request ''spindle''),
      GenerateContent (image_request ''membrane'')] \<and>
   fst (processNotes unreachable_client doc_state) =
     doc_state\<lparr>isProcessing := False, error := Some ''Failed to fetch''\<rparr> \<and>
   snd (processNotes unreachable_client doc_state) = [FetchGoogleDoc demo_docId demo_tokens]"
proof -
  have r: "readAsDataURL offline_client = readAsDataURL demo_client"
    by (simp add: offline_client_def)
  have c: "analysis_contents (ImageInput (map (readAsDataURL offline_client) (files files_state))) =
             Inr demo_contents"
    by (rule files_contents [OF r])
  have f: "files files_state \<noteq> []"
    by (simp add: files_state_fields)
  have g: "generateContent offline_client (analysis_request demo_contents) =
             Inl (JsError (Some ''fetch failed''))"
    by (simp add: offline_client_def)
  note t1 = processNotes_reports_error
    [where env = offline_client and st = files_state and contents = demo_contents
       and err = "JsError (Some ''fetch failed'')" and thrown = "JsError (Some ''fetch failed'')"]
  from t1 f c g have a1: "snd (try_body offline_client files_state) =
                            Inl (JsError (Some ''fetch failed''))"
    and a2: "fst (try_body offline_client files_state) =
               map ReadFile (files files_state) @ [GenerateContent (analysis_request demo_contents)]"
    by blast+
  from t1 a1 have b1: "fst (processNotes offline_client files_state) =
     files_state\<lparr>isProcessing := False,
                 error := Some (error_text (JsError (Some ''fetch failed'')))\<rparr>"
    and b2: "processedData (fst (processNotes offline_client files_state)) =
               processedData files_state"
    and b3: "snd (processNotes offline_client files_state) =
               fst (try_body offline_client files_state)"
    by blast+
  have w1: "fst (processNotes offline_client files_state) =
     files_state\<lparr>isProcessing := False, error := Some ''fetch failed''\<rparr>"
    using b1 by (simp add: error_text_def)
  have w2: "processedData (fst (processNotes offline_client files_state)) = Some demo_notes"
    using b2 by (simp add: files_state_fields)
  have w3: "snd (processNotes offline_client files_state) =
     [ReadFile ''/9j/4AAQ'', GenerateContent (analysis_request demo_contents)]"
    unfolding b3 a2 by (simp add: files_state_fields)
  have failing: "\<exists>s \<in> set [demo_section]. \<exists>d \<in> set (section_descriptions s).
           isl (generateContent failing_images_client (image_request d))"
    by (simp add: demo_sections failing_image_answers)
  note t2 = processNotes_reports_error
    [where env = failing_images_client and st = files_state and result = demo_notes
       and ss = "[demo_section]"]
  note im = t2 [THEN conjunct2, THEN conjunct2, THEN conjunct2, THEN conjunct2,
                 THEN conjunct2, THEN conjunct2, THEN conjunct1, THEN mp]
  have pre: "snd (analyze_input_of failing_images_client files_state) = Inr demo_notes \<and>
             sections demo_notes = Some [demo_section] \<and>
             (\<exists>s \<in> set [demo_section]. \<exists>d \<in> set (section_descriptions s).
                isl (generateContent failing_images_client (image_request d)))"
    using failing_run_input(2) demo_sections(1) failing by (intro conjI)
  from im [OF pre] obtain s d err where sd:
    "s \<in> set [demo_section]" "d \<in> set (section_descriptions s)"
    "generateContent failing_images_client (image_request d) = Inl err"
    "\<forall>s' \<in> set [demo_section]. \<forall>d' \<in> set (section_descriptions s').
        isl (generateContent failing_images_client (image_request d')) \<longrightarrow>
        settles_at failing_images_client (image_request d) \<le>
        settles_at failing_images_client (image_request d')"
    "snd (try_body failing_images_client files_state) = Inl err"
    "fst (try_body failing_images_client files_state) =
       fst (analyze_input_of failing_images_client files_state) @ image_calls [demo_section]"
    by blast
  from sd(1) have s: "s = demo_section" by simp
  note d = sd(2) [unfolded s] sd(3) sd(4) [simplified] sd(5) sd(6)
  from d(3) have "settles_at failing_images_client (image_request d) \<le> 400"
    using failing_image_answers by (simp add: demo_sections)
  with d(1) have "d = ''membrane''"
    using failing_image_answers(3) by (auto simp: demo_sections)
  with d(2) have err: "err = JsError (Some ''membrane: blocked'')"
    by (simp add: failing_image_answers)
  from t2 [where thrown = err] d(4) have
    c1: "error (fst (processNotes failing_images_client files_state)) =
           Some (case message err of
                   None \<Rightarrow> ''Failed to process notes''
                 | Some m \<Rightarrow> if m = [] then ''Failed to process notes'' else m)"
    and c2: "processedData (fst (processNotes failing_images_client files_state)) =
               processedData files_state"
    and c3: "snd (processNotes failing_images_client files_state) =
               fst (try_body failing_images_client files_state)"
    by blast+
  have w4: "error (fst (processNotes failing_images_client files_state)) =
              Some ''membrane: blocked''"
    using c1 by (simp add: err)
  have w5: "processedData (fst (processNotes failing_images_client files_state)) =
              Some demo_notes"
    using c2 by (simp add: files_state_fields)
  have w6: "snd (processNotes failing_images_client files_state) =
     [ReadFile ''/9j/4AAQ'',
      GenerateContent (analysis_request demo_contents),
      GenerateContent (image_request ''spindle''),
      GenerateContent (image_request ''membrane'')]"
    unfolding c3 d(5) by (simp add: failing_run_input(1) demo_image_calls)
  have df: "files doc_state = [] \<and> docUrl doc_state \<noteq> [] \<and>
            googleTokens doc_state = Some demo_tokens \<and>
            docId_match (docUrl doc_state) = Some demo_docId \<and>
            fetch_content unreachable_client demo_docId demo_tokens =
              Inl (JsError (Some ''Failed to fetch''))"
    using doc_state_fields(2)
    by (simp add: doc_state_fields(1,3) demo_docId_match unreachable_client_def)
  note t3 = processNotes_reports_error
    [where env = unreachable_client and st = doc_state and toks = demo_tokens
       and doc_id = demo_docId and err = "JsError (Some ''Failed to fetch'')"
       and thrown = "JsError (Some ''Failed to fetch'')"]
  from t3 df have e1: "snd (try_body unreachable_client doc_state) =
                         Inl (JsError (Some ''Failed to fetch''))"
    and e2: "fst (try_body unreachable_client doc_state) = [FetchGoogleDoc demo_docId demo_tokens]"
    by blast+
  from t3 e1 have f1: "fst (processNotes unreachable_client doc_state) =
     doc_state\<lparr>isProcessing := False,
               error := Some (error_text (JsError (Some ''Failed to fetch'')))\<rparr>"
    and f3: "snd (processNotes unreachable_client doc_state) =
               fst (try_body unreachable_client doc_state)"
    by blast+
  have w7: "fst (processNotes unreachable_client doc_state) =
     doc_state\<lparr>isProcessing := False, error := Some ''Failed to fetch''\<rparr>"
    using f1 by (simp add: error_text_def)
  have w8: "snd (processNotes unreachable_client doc_state) =
              [FetchGoogleDoc demo_docId demo_tokens]"
    unfolding f3 e2 by simp
  from w1 w2 w3 w4 w5 w6 w7 w8 show ?thesis
    by (intro conjI)
qed

subsection \<open>Export to PowerPoint\<close>

lemma add_item_last: "add_item (ppt @ [sl]) (length ppt) item = ppt @ [sl @ [item]]"
  by (simp add: add_item_def)

lemma export_diagram_slide: "export_diagram s ppt img = ppt @ [diagram_slide s img]"
  by (simp add: export_diagram_def addSlide_def add_item_last diagram_slide_def Let_def)

lemma foldl_export_diagram:
  "foldl (export_diagram s) ppt imgs = ppt @ map (diagram_slide s) imgs"
  by (induction imgs arbitrary: ppt) (simp_all add: export_diagram_slide)

lemma export_section_slides: "export_section ppt s = ppt @ section_slides s"
  by (cases "diagramImages s")
     (simp_all add: export_section_def addSlide_def add_item_last section_slides_def Let_def
        foldl_export_diagram)

lemma foldl_export_section:
  "foldl export_section ppt ss = ppt @ concat (map section_slides ss)"
  by (induction ss arbitrary: ppt) (simp_all add: export_section_slides)

text \<open>
  Claim C8. \<open>exportToPpt\<close> does nothing without a processed result. Otherwise it builds
  one title slide with the title and then, for each section in list order, one slide with
  the heading and the content of the section, followed at once by one slide for each of the
  section's diagram images.
\<close>

theorem exportToPpt_slides:
  "exportToPpt None = None \<and>
   (sections d = Some ss \<longrightarrow>
      (\<exists>written.
         exportToPpt (Some d) =
           Some ([AddText (title d) title_options] # concat (map section_slides ss), written) \<and>
         (\<forall>t. title d = Some t \<longrightarrow> written = Inr (pptx_fileName t)))) \<and>
   (diagramImages s = Some imgs \<longrightarrow>
      section_slides s =
        [AddText (heading s) heading_options, AddText (content s) content_options] #
        map (diagram_slide s) imgs) \<and>
   (diagramImages s = None \<longrightarrow>
      section_slides s =
        [[AddText (heading s) heading_options, AddText (content s) content_options]])"
proof -
  have a: "exportToPpt None = None"
    by (simp add: exportToPpt_def)
  have b: "sections d = Some ss \<longrightarrow>
      (\<exists>written.
         exportToPpt (Some d) =
           Some ([AddText (title d) title_options] # concat (map section_slides ss), written) \<and>
         (\<forall>t. title d = Some t \<longrightarrow> written = Inr (pptx_fileName t)))"
    by (cases "title d")
       (simp_all add: exportToPpt_def addSlide_def add_item_def foldl_export_section Let_def)
  have c: "diagramImages s = Some imgs \<longrightarrow>
      section_slides s =
        [AddText (heading s) heading_options, AddText (content s) content_options] #
        map (diagram_slide s) imgs"
    by (simp add: section_slides_def)
  have e: "diagramImages s = None \<longrightarrow>
      section_slides s =
        [[AddText (heading s) heading_options, AddText (content s) content_options]]"
    by (simp add: section_slides_def)
  from a b c e show ?thesis by blast
qed

theorem exportToPpt_slides_witness:
  "sections demo_shown = Some [demo_section\<lparr>diagramImages := Some [demo_image]\<rparr>] \<and>
   title demo_shown = Some ''Cell  biology'' \<and>
   exportToPpt (Some demo_shown) =
     Some ([[AddText (Some ''Cell  biology'') title_options],
            [AddText (Some ''Mitosis'') heading_options,
             AddText (Some ''Four phases.'') content_options],
            [AddText (Some ''Mitosis - Diagram'') caption_options,
             AddImage (image_options demo_image)]],
           Inr ''Cell_biology.pptx'')"
proof -
  let ?s = "demo_section\<lparr>diagramImages := Some [demo_image]\<rparr>"
  have h: "sections demo_shown = Some [?s]"
    by (simp add: demo_shown_def)
  have t: "title demo_shown = Some ''Cell  biology''"
    by (simp add: demo_shown_def demo_notes_def)
  have i: "diagramImages ?s = Some [demo_image]"
    by simp
  from exportToPpt_slides [of demo_shown "[?s]" ?s "[demo_image]"] h t i
  have "exportToPpt (Some demo_shown) =
          Some ([AddText (title demo_shown) title_options] # concat (map section_slides [?s]),
                Inr (pptx_fileName ''Cell  biology''))"
    and "section_slides ?s =
        [AddText (heading ?s) heading_options, AddText (content ?s) content_options] #
        map (diagram_slide ?s) [demo_image]"
    by auto
  then have "exportToPpt (Some demo_shown) =
     Some ([[AddText (Some ''Cell  biology'') title_options],
            [AddText (Some ''Mitosis'') heading_options,
             AddText (Some ''Four phases.'') content_options],
            [AddText (Some ''Mitosis - Diagram'') caption_options,
             AddImage (image_options demo_image)]],
           Inr ''Cell_biology.pptx'')"
    by (simp add: t diagram_slide_def demo_section_def opt_to_string_def pptx_fileName_def
          space_length_def)
  with h t show ?thesis by blast
qed

end
